theory Spec2Isabelle
  imports Main "HOL-Library.Sublist"
begin

section \<open>Data model\<close>

text \<open>
  The TypeScript interfaces of \<^verbatim>\<open>chat.service.ts\<close> and \<^verbatim>\<open>chat.component.ts\<close>.
  Field names carry a short prefix naming their interface (\<open>s_id\<close> is \<^verbatim>\<open>Session.id\<close>,
  \<open>m_content\<close> is \<^verbatim>\<open>Message.content\<close>, \<open>ctype\<close> is \<^verbatim>\<open>StreamChunk.type\<close>).
  An optional field \<^verbatim>\<open>f?: T\<close> is a \<open>T option\<close>, \<open>None\<close> being \<^verbatim>\<open>undefined\<close>.
  Text is a \<open>string\<close>, one \<open>char\<close> for each code unit; the bytes of a network chunk
  are a \<open>string\<close> too, one \<open>char\<close> for each byte. A value of type
  \<^verbatim>\<open>Record<string, unknown>\<close> is kept as its serialised text. A time stamp made by
  \<^verbatim>\<open>new Date().toISOString()\<close> is represented by the clock reading that it renders.
\<close>

type_synonym json = string

record SessionDocument =
  d_id :: string
  d_title :: string
  d_fileType :: string
  d_sizeBytes :: int
  d_uploadedAt :: string
  d_chunksCount :: int

record Session =
  s_id :: string
  s_title :: string
  s_orchestrationType :: string
  s_selectedAgents :: "string list"
  s_documents :: "SessionDocument list option"
  s_createdAt :: nat
  s_lastMessageAt :: nat
  s_messageCount :: int

datatype role = User | Assistant | System

record ChatterEvent =
  ce_type :: string
  ce_agentName :: string
  ce_content :: string
  ce_toolName :: "string option"
  ce_toolArgs :: "json option"
  ce_timestamp :: nat
  ce_durationMs :: "int option"
  ce_tokensInput :: "int option"
  ce_tokensOutput :: "int option"
  ce_friendlyMessage :: "string option"

record AgentResponse =
  ar_agentName :: string
  ar_content :: string

text \<open>\<^verbatim>\<open>DisplayMessage extends Message\<close>: the first six fields are those of \<^verbatim>\<open>Message\<close>.\<close>

record DisplayMessage =
  m_id :: string
  m_sessionId :: string
  m_role :: role
  m_content :: string
  m_timestamp :: nat
  m_metadata :: "json option"
  m_isStreaming :: "bool option"
  m_agentResponses :: "AgentResponse list option"
  m_chatterEvents :: "ChatterEvent list option"

record StreamChunk =
  ctype :: string
  agentId :: "string option"
  agentName :: "string option"
  content :: "string option"
  session_id :: "string option"
  metadata :: "json option"
  chatter_type :: "string option"
  agent_name :: "string option"
  tool_name :: "string option"
  tool_args :: "json option"
  duration_ms :: "int option"
  tokens_input :: "int option"
  tokens_output :: "int option"
  friendly_message :: "string option"

record ChatRequest =
  rq_message :: string
  rq_sessionId :: "string option"
  rq_orchestrationType :: "string option"
  rq_agentIds :: "string list option"
  rq_includeDocuments :: "bool option"
  rq_pendingSessionId :: "string option"

text \<open>
  JavaScript truthiness of an optional string: \<^verbatim>\<open>undefined\<close> and the empty string are falsy.
  \<open>or_else x d\<close> is \<^verbatim>\<open>x || d\<close>.
\<close>

definition truthy :: "string option \<Rightarrow> bool" where
  "truthy x = (case x of None \<Rightarrow> False | Some s \<Rightarrow> s \<noteq> [])"

definition or_else :: "string option \<Rightarrow> string \<Rightarrow> string" where
  "or_else x d = (case x of None \<Rightarrow> d | Some s \<Rightarrow> if s = [] then d else s)"

section \<open>SessionStateService: the session identity broker\<close>

text \<open>
  The fields of \<^verbatim>\<open>SessionStateService\<close>. The two \<^verbatim>\<open>BehaviorSubject\<close>s are their current
  values; the \<^verbatim>\<open>Subject<void>\<close> \<^verbatim>\<open>sessionsRefresh$\<close> carries no value, so it is the
  number of times \<^verbatim>\<open>next()\<close> has been called on it. The \<^verbatim>\<open>Map\<close>s are partial functions
  and the \<^verbatim>\<open>Set\<close> is a set.
\<close>

record SessionState =
  activeSessionId :: "string option"
  sessionsRefresh :: nat
  pendingSession :: "Session option"
  pendingToRealMap :: "string \<rightharpoonup> string"
  cachedMessages :: "string \<rightharpoonup> DisplayMessage list"
  activeNewSessionStreams :: "string set"

definition initialState :: SessionState where
  "initialState = \<lparr> activeSessionId = None, sessionsRefresh = 0, pendingSession = None,
     pendingToRealMap = Map.empty, cachedMessages = Map.empty, activeNewSessionStreams = {} \<rparr>"

definition setActiveSession :: "string option \<Rightarrow> SessionState \<Rightarrow> SessionState" where
  "setActiveSession sessionId st = st\<lparr>activeSessionId := sessionId\<rparr>"

definition refreshSessions :: "SessionState \<Rightarrow> SessionState" where
  "refreshSessions st = st\<lparr>sessionsRefresh := Suc (sessionsRefresh st)\<rparr>"

definition setPendingSession :: "Session option \<Rightarrow> SessionState \<Rightarrow> SessionState" where
  "setPendingSession session st = st\<lparr>pendingSession := session\<rparr>"

definition clearPendingSession :: "SessionState \<Rightarrow> SessionState" where
  "clearPendingSession st = st\<lparr>pendingSession := None\<rparr>"

definition mapPendingToReal :: "string \<Rightarrow> string \<Rightarrow> SessionState \<Rightarrow> SessionState" where
  "mapPendingToReal pendingId realId st =
     st\<lparr>pendingToRealMap := (pendingToRealMap st)(pendingId \<mapsto> realId)\<rparr>"

definition getRealSessionId :: "string \<Rightarrow> SessionState \<Rightarrow> string option" where
  "getRealSessionId pendingId st = pendingToRealMap st pendingId"

definition clearPendingMapping :: "string \<Rightarrow> SessionState \<Rightarrow> SessionState" where
  "clearPendingMapping pendingId st =
     st\<lparr>pendingToRealMap := (pendingToRealMap st)(pendingId := None)\<rparr>"

definition cacheMessages :: "string \<Rightarrow> DisplayMessage list \<Rightarrow> SessionState \<Rightarrow> SessionState" where
  "cacheMessages sessionId messages st =
     st\<lparr>cachedMessages := (cachedMessages st)(sessionId \<mapsto> messages)\<rparr>"

text \<open>
  \<^verbatim>\<open>popCachedMessages\<close> returns the entry and the new state. An array is truthy even when
  it is empty, so every entry found is deleted.
\<close>

definition popCachedMessages ::
  "string \<Rightarrow> SessionState \<Rightarrow> DisplayMessage list option \<times> SessionState" where
  "popCachedMessages sessionId st =
     (case cachedMessages st sessionId of
        None \<Rightarrow> (None, st)
      | Some messages \<Rightarrow>
          (Some messages, st\<lparr>cachedMessages := (cachedMessages st)(sessionId := None)\<rparr>))"

definition registerActiveStream :: "string \<Rightarrow> SessionState \<Rightarrow> SessionState" where
  "registerActiveStream pendingId st =
     st\<lparr>activeNewSessionStreams := insert pendingId (activeNewSessionStreams st)\<rparr>"

definition hasActiveStream :: "string \<Rightarrow> SessionState \<Rightarrow> bool" where
  "hasActiveStream pendingId st = (pendingId \<in> activeNewSessionStreams st)"

definition completeNewSession ::
  "string \<Rightarrow> string \<Rightarrow> DisplayMessage list \<Rightarrow> SessionState \<Rightarrow> SessionState" where
  "completeNewSession pendingId realSessionId messages st =
     (if pendingId \<notin> activeNewSessionStreams st then st
      else
        let st1 = st\<lparr>activeNewSessionStreams := activeNewSessionStreams st - {pendingId}\<rparr>;
            st2 = mapPendingToReal pendingId realSessionId st1;
            st3 = (if length messages > 0 then cacheMessages realSessionId messages st2 else st2);
            st4 = clearPendingSession st3
        in refreshSessions st4)"

text \<open>
  The callback that the constructor registers with \<^verbatim>\<open>ChatService.onNewSessionComplete\<close>.
\<close>

definition handleNewSessionComplete :: "string \<Rightarrow> string \<Rightarrow> SessionState \<Rightarrow> SessionState" where
  "handleNewSessionComplete pendingId realSessionId st =
     (if pendingId \<notin> activeNewSessionStreams st then st
      else
        let st1 = st\<lparr>activeNewSessionStreams := activeNewSessionStreams st - {pendingId}\<rparr>;
            st2 = mapPendingToReal pendingId realSessionId st1;
            st3 = clearPendingSession st2
        in refreshSessions st3)"

text \<open>
  Every state-changing call that the service offers, as one operation, and a run of such
  calls from left to right.
\<close>

datatype broker_op =
    SetActiveSession "string option"
  | RefreshSessions
  | SetPendingSession "Session option"
  | ClearPendingSession
  | MapPendingToReal string string
  | ClearPendingMapping string
  | CacheMessages string "DisplayMessage list"
  | PopCachedMessages string
  | RegisterActiveStream string
  | CompleteNewSession string string "DisplayMessage list"
  | HandleNewSessionComplete string string

fun apply_broker_op :: "broker_op \<Rightarrow> SessionState \<Rightarrow> SessionState" where
  "apply_broker_op (SetActiveSession x) st = setActiveSession x st"
| "apply_broker_op RefreshSessions st = refreshSessions st"
| "apply_broker_op (SetPendingSession x) st = setPendingSession x st"
| "apply_broker_op ClearPendingSession st = clearPendingSession st"
| "apply_broker_op (MapPendingToReal p r) st = mapPendingToReal p r st"
| "apply_broker_op (ClearPendingMapping p) st = clearPendingMapping p st"
| "apply_broker_op (CacheMessages k ms) st = cacheMessages k ms st"
| "apply_broker_op (PopCachedMessages k) st = snd (popCachedMessages k st)"
| "apply_broker_op (RegisterActiveStream p) st = registerActiveStream p st"
| "apply_broker_op (CompleteNewSession p r ms) st = completeNewSession p r ms st"
| "apply_broker_op (HandleNewSessionComplete p r) st = handleNewSessionComplete p r st"

fun run_broker :: "broker_op list \<Rightarrow> SessionState \<Rightarrow> SessionState" where
  "run_broker [] st = st"
| "run_broker (x # xs) st = run_broker xs (apply_broker_op x st)"

section \<open>ChatService.streamChat: the stream decoder\<close>

text \<open>
  \<^verbatim>\<open>buffer.split('\n\n')\<close>: the pieces of the text between the occurrences of two line
  feeds, found from left to right without overlap. The result is never empty: a text with
  no separator is its own single piece.
\<close>

fun split_nn :: "string \<Rightarrow> string list" where
  "split_nn [] = [[]]"
| "split_nn [c] = [[c]]"
| "split_nn (c # d # cs) =
     (if c = CHR 0x0A \<and> d = CHR 0x0A then [] # split_nn cs
      else (let r = split_nn (d # cs) in (c # hd r) # tl r))"

text \<open>
  \<^verbatim>\<open>TextDecoder\<close> and \<^verbatim>\<open>JSON.parse\<close> belong to the platform, so they are parameters.
  A decoder in streaming mode consumes bytes one at a time and keeps the bytes of an
  unfinished character in its state \<open>'d\<close>: \<open>utf8 d b\<close> is the text that byte \<open>b\<close> completes
  and the next state. \<open>decode_stream\<close> is \<^verbatim>\<open>decoder.decode(value, { stream: true })\<close>.
  \<open>parse body\<close> is \<^verbatim>\<open>JSON.parse(body) as StreamChunk\<close>, with \<open>None\<close> when the \<^verbatim>\<open>try\<close>
  block throws.
\<close>

fun decode_stream :: "('d \<Rightarrow> char \<Rightarrow> string \<times> 'd) \<Rightarrow> 'd \<Rightarrow> string \<Rightarrow> string \<times> 'd" where
  "decode_stream utf8 d [] = ([], d)"
| "decode_stream utf8 d (b # bs) =
     (let (t, d1) = utf8 d b; (ts, d2) = decode_stream utf8 d1 bs in (t @ ts, d2))"

text \<open>
  The body of \<^verbatim>\<open>for (const line of lines)\<close>. \<open>emit data w\<close> stands for what follows a
  successful parse, \<^verbatim>\<open>subject.next(data)\<close> and the notification of the callbacks, and
  \<open>report w\<close> for the \<^verbatim>\<open>console.error\<close> of the \<^verbatim>\<open>catch\<close> branch.
\<close>

definition process_line ::
  "(string \<Rightarrow> StreamChunk option) \<Rightarrow> (StreamChunk \<Rightarrow> 'w \<Rightarrow> 'w) \<Rightarrow> ('w \<Rightarrow> 'w) \<Rightarrow> 'w \<Rightarrow> string \<Rightarrow> 'w" where
  "process_line parse emit report w line =
     (if prefix ''data: '' line then
        (case parse (drop 6 line) of None \<Rightarrow> report w | Some data \<Rightarrow> emit data w)
      else w)"

text \<open>
  One round of \<^verbatim>\<open>while (true)\<close> for a chunk \<open>value\<close> that \<^verbatim>\<open>reader.read()\<close> returned.
  The loop state is the \<^verbatim>\<open>buffer\<close>, the state of the decoder and whatever \<open>emit\<close> and
  \<open>report\<close> change.
\<close>

definition read_step ::
  "('d \<Rightarrow> char \<Rightarrow> string \<times> 'd) \<Rightarrow> (string \<Rightarrow> StreamChunk option) \<Rightarrow> (StreamChunk \<Rightarrow> 'w \<Rightarrow> 'w) \<Rightarrow>
   ('w \<Rightarrow> 'w) \<Rightarrow> string \<Rightarrow> string \<times> 'd \<times> 'w \<Rightarrow> string \<times> 'd \<times> 'w" where
  "read_step utf8 parse emit report value s =
     (case s of (buffer, d, w) \<Rightarrow>
        (let (text, d1) = decode_stream utf8 d value;
             buffer1 = buffer @ text;
             lines = split_nn buffer1;
             buffer2 = last lines
         in (buffer2, d1, foldl (process_line parse emit report) w (butlast lines))))"

fun read_loop ::
  "('d \<Rightarrow> char \<Rightarrow> string \<times> 'd) \<Rightarrow> (string \<Rightarrow> StreamChunk option) \<Rightarrow> (StreamChunk \<Rightarrow> 'w \<Rightarrow> 'w) \<Rightarrow>
   ('w \<Rightarrow> 'w) \<Rightarrow> string list \<Rightarrow> string \<times> 'd \<times> 'w \<Rightarrow> string \<times> 'd \<times> 'w" where
  "read_loop utf8 parse emit report [] s = s"
| "read_loop utf8 parse emit report (value # rest) s =
     read_loop utf8 parse emit report rest (read_step utf8 parse emit report value s)"

text \<open>
  The event sequence of a stream: the values passed to \<^verbatim>\<open>subject.next\<close>, in order, when
  the reader returns the byte chunks \<open>chunks\<close> and then reports the end.
\<close>

definition sse_events ::
  "('d \<Rightarrow> char \<Rightarrow> string \<times> 'd) \<Rightarrow> 'd \<Rightarrow> (string \<Rightarrow> StreamChunk option) \<Rightarrow> string list \<Rightarrow>
   StreamChunk list" where
  "sse_events utf8 d0 parse chunks =
     snd (snd (read_loop utf8 parse (\<lambda>data evs. evs @ [data]) (\<lambda>evs. evs) chunks ([], d0, [])))"

text \<open>The number of times the loop takes the \<^verbatim>\<open>catch\<close> branch and logs on the same stream.\<close>

definition sse_logged ::
  "('d \<Rightarrow> char \<Rightarrow> string \<times> 'd) \<Rightarrow> 'd \<Rightarrow> (string \<Rightarrow> StreamChunk option) \<Rightarrow> string list \<Rightarrow> nat" where
  "sse_logged utf8 d0 parse chunks =
     snd (snd (read_loop utf8 parse (\<lambda>data n. n) Suc chunks ([], d0, 0)))"

text \<open>
  A record of the wire format, as the text between two separators: it has no two line
  feeds in a row and does not end in a line feed, so that the separator after it is the
  first one. On the wire it is followed by the separator.
\<close>

fun record_text :: "string \<Rightarrow> bool" where
  "record_text [] = True"
| "record_text [c] = (c \<noteq> CHR 0x0A)"
| "record_text (c # d # cs) = (\<not> (c = CHR 0x0A \<and> d = CHR 0x0A) \<and> record_text (d # cs))"

text \<open>
  A well-formed record has the marker \<^verbatim>\<open>data: \<close> before a body that parses; a malformed
  one has the marker before a body that \<^verbatim>\<open>JSON.parse\<close> rejects.
\<close>

definition frame :: "string \<Rightarrow> string" where
  "frame l = l @ [CHR 0x0A, CHR 0x0A]"

definition well_formed_record :: "(string \<Rightarrow> StreamChunk option) \<Rightarrow> string \<Rightarrow> bool" where
  "well_formed_record parse l =
     (record_text l \<and> prefix ''data: '' l \<and> parse (drop 6 l) \<noteq> None)"

definition malformed_record :: "(string \<Rightarrow> StreamChunk option) \<Rightarrow> string \<Rightarrow> bool" where
  "malformed_record parse l =
     (record_text l \<and> prefix ''data: '' l \<and> parse (drop 6 l) = None)"

text \<open>The event that the loop emits for a line, if any.\<close>

definition event_of :: "(string \<Rightarrow> StreamChunk option) \<Rightarrow> string \<Rightarrow> StreamChunk option" where
  "event_of parse line = (if prefix ''data: '' line then parse (drop 6 line) else None)"

section \<open>ChatComponent: the view that starts a turn\<close>

record DocumentMetadata =
  dm_id :: string
  dm_sessionId :: string
  dm_title :: string
  dm_fileType :: string
  dm_sizeBytes :: int
  dm_uploadedAt :: string
  dm_chunksCount :: int

record UploadedFile =
  uf_document :: DocumentMetadata
  uf_isUploading :: "bool option"
  uf_error :: "string option"

text \<open>
  The fields of \<^verbatim>\<open>ChatComponent\<close> that the modelled methods read or write. \<open>destroyed\<close>
  says that \<^verbatim>\<open>destroy$\<close> has fired; \<open>liveFollowUps\<close> counts the stream subscriptions
  made through \<^verbatim>\<open>takeUntil(this.destroy$)\<close> whose stream has not ended.
\<close>

record ChatComponent =
  sessionId :: "string option"
  session :: "Session option"
  messages :: "DisplayMessage list"
  selectedAgentIds :: "string list"
  orchestrationType :: string
  uploadedFiles :: "UploadedFile list"
  uploadingFile :: "string option"
  uploadError :: "string option"
  isLoading :: bool
  isSending :: bool
  streamingMessage :: "DisplayMessage option"
  shouldScroll :: bool
  currentPendingId :: "string option"
  destroyed :: bool
  liveFollowUps :: nat

text \<open>
  What a method asks of the router and of the HTTP layer, in the order of the calls. The
  answers arrive in later callbacks, which are not part of the model.
\<close>

datatype effect =
    Navigate "string list"
  | GetSession string
  | GetMessages string
  | PostSend ChatRequest

text \<open>
  The view, the service it is injected with, the clock that \<^verbatim>\<open>Date.now()\<close> reads (one
  reading for each callback) and the log of effects.
\<close>

record World =
  clock :: nat
  sessionState :: SessionState
  chat :: ChatComponent
  effects :: "effect list"

text \<open>
  What the closure of one \<^verbatim>\<open>sendMessage\<close> call keeps for its stream: the request, the
  constant \<^verbatim>\<open>isNewSession\<close>, and whether the subscription stops when \<^verbatim>\<open>destroy$\<close>
  fires (it went through \<^verbatim>\<open>takeUntil\<close> while \<^verbatim>\<open>destroy$\<close> was still open).
\<close>

record Turn =
  t_request :: ChatRequest
  t_isNewSession :: bool
  t_takeUntil :: bool

fun string_of_nat :: "nat \<Rightarrow> string" where
  "string_of_nat n =
     (if n < 10 then [''0123456789'' ! n]
      else string_of_nat (n div 10) @ [''0123456789'' ! (n mod 10)])"

declare string_of_nat.simps [simp del]

definition is_space :: "char \<Rightarrow> bool" where
  "is_space c = (c \<in> set [CHR 0x09, CHR 0x0A, CHR 0x0B, CHR 0x0C, CHR 0x0D, CHR 0x20, CHR 0xA0])"

definition trim :: "string \<Rightarrow> string" where
  "trim s = rev (dropWhile is_space (rev (dropWhile is_space s)))"

definition ngOnDestroy :: "World \<Rightarrow> World" where
  "ngOnDestroy w =
     (let c = chat w;
          c1 = (if liveFollowUps c > 0 then
                  c\<lparr>isSending := False,
                    messages := messages c @
                      (case streamingMessage c of None \<Rightarrow> []
                       | Some sm \<Rightarrow> [sm\<lparr>m_isStreaming := Some False\<rparr>]),
                    streamingMessage := None\<rparr>
                else c)
      in w\<lparr>chat := c1\<lparr>destroyed := True, liveFollowUps := 0\<rparr>\<rparr>)"

definition loadSession :: "World \<Rightarrow> World" where
  "loadSession w =
     (if \<not> truthy (sessionId (chat w)) then w
      else
        let sid = or_else (sessionId (chat w)) [] in
        if prefix ''pending-'' sid then
          (let realId = getRealSessionId sid (sessionState w) in
           if truthy realId then
             w\<lparr>sessionState := clearPendingMapping sid (sessionState w),
               effects := effects w @ [Navigate [''/chat'', or_else realId []]]\<rparr>
           else w)
        else
          (let (cached, st1) = popCachedMessages sid (sessionState w) in
           case cached of
             Some (m # ms) \<Rightarrow>
               w\<lparr>sessionState := st1,
                 chat := (chat w)\<lparr>messages := m # ms, isLoading := False, shouldScroll := True\<rparr>,
                 effects := effects w @ [GetSession sid]\<rparr>
           | _ \<Rightarrow>
               w\<lparr>sessionState := st1,
                 chat := (chat w)\<lparr>isLoading := True, messages := [],
                   uploadedFiles :=
                     (if map_option s_id (session (chat w)) \<noteq> Some sid then []
                      else uploadedFiles (chat w))\<rparr>,
                 effects := effects w @ [GetSession sid, GetMessages sid]\<rparr>))"

text \<open>
  The subscriber of \<^verbatim>\<open>route.params\<close> set up by \<^verbatim>\<open>ngOnInit\<close>, which is taken down when
  \<^verbatim>\<open>destroy$\<close> fires.
\<close>

definition routeParams :: "string option \<Rightarrow> World \<Rightarrow> World" where
  "routeParams newSessionId w =
     (if destroyed (chat w) then w
      else
        let c = chat w;
            c1 = (if sessionId c \<noteq> newSessionId then
                    c\<lparr>messages := [], session := None, streamingMessage := None,
                      isSending := False, uploadedFiles := [], uploadingFile := None,
                      uploadError := None\<rparr>
                  else c);
            w1 = w\<lparr>chat := c1\<lparr>sessionId := newSessionId\<rparr>\<rparr>
        in if truthy newSessionId then loadSession w1 else w1)"

definition sendMessage :: "string \<Rightarrow> World \<Rightarrow> World \<times> Turn option" where
  "sendMessage contentText w =
     (if trim contentText = [] \<or> isSending (chat w) then (w, None)
      else
        let isNewSession = \<not> truthy (sessionId (chat w));
            w1 = (if isNewSession then
                    (let pendingId = ''pending-'' @ string_of_nat (clock w);
                         title = (if length contentText > 30 then take 30 contentText @ ''...''
                                  else contentText)
                     in w\<lparr>chat := (chat w)\<lparr>currentPendingId := Some pendingId\<rparr>,
                          sessionState :=
                            setPendingSession
                              (Some \<lparr>s_id = pendingId, s_title = title,
                                 s_orchestrationType = orchestrationType (chat w),
                                 s_selectedAgents = selectedAgentIds (chat w),
                                 s_documents = None, s_createdAt = clock w,
                                 s_lastMessageAt = clock w, s_messageCount = 1\<rparr>)
                              (registerActiveStream pendingId (sessionState w))\<rparr>)
                  else w);
            c = chat w1;
            userMessage = \<lparr>m_id = ''temp-'' @ string_of_nat (clock w),
               m_sessionId = or_else (sessionId c) [], m_role = User, m_content = contentText,
               m_timestamp = clock w, m_metadata = None, m_isStreaming = None,
               m_agentResponses = None, m_chatterEvents = None\<rparr>;
            streaming = \<lparr>m_id = ''streaming'', m_sessionId = or_else (sessionId c) [],
               m_role = Assistant, m_content = [], m_timestamp = clock w, m_metadata = None,
               m_isStreaming = Some True, m_agentResponses = Some [],
               m_chatterEvents = Some []\<rparr>;
            request = \<lparr>rq_message = contentText, rq_sessionId = sessionId c,
               rq_orchestrationType = Some (orchestrationType c),
               rq_agentIds = (if length (selectedAgentIds c) > 0 then Some (selectedAgentIds c)
                              else None),
               rq_includeDocuments = None, rq_pendingSessionId = currentPendingId c\<rparr>;
            guarded = (\<not> isNewSession \<and> \<not> destroyed c);
            c1 = c\<lparr>isSending := True, messages := messages c @ [userMessage],
                   shouldScroll := True, streamingMessage := Some streaming,
                   liveFollowUps := (if guarded then Suc (liveFollowUps c) else liveFollowUps c)\<rparr>
        in (w1\<lparr>chat := c1, effects := effects w1 @ [PostSend request]\<rparr>,
            Some \<lparr>t_request = request, t_isNewSession = isNewSession, t_takeUntil = guarded\<rparr>))"

definition chatterEvent_of :: "nat \<Rightarrow> StreamChunk \<Rightarrow> ChatterEvent" where
  "chatterEvent_of now chunk =
     \<lparr>ce_type = or_else (chatter_type chunk) ''thinking'',
      ce_agentName = or_else (agent_name chunk) ''Agent'',
      ce_content = or_else (content chunk) [],
      ce_toolName = tool_name chunk, ce_toolArgs = tool_args chunk, ce_timestamp = now,
      ce_durationMs = duration_ms chunk, ce_tokensInput = tokens_input chunk,
      ce_tokensOutput = tokens_output chunk, ce_friendlyMessage = friendly_message chunk\<rparr>"

text \<open>
  The handler of one event. The source appends a content delta to the last per-agent
  buffer in place, and a copy made with the spread operator shares the array of the
  buffers; the model copies values. The two differ only for the cached copy of a message
  when content events follow the done event of a new session in the same stream.
\<close>

definition handleStreamChunk :: "StreamChunk \<Rightarrow> bool \<Rightarrow> World \<Rightarrow> World" where
  "handleStreamChunk chunk isNewSession w =
     (if ctype chunk = ''done'' \<and> isNewSession \<and> truthy (session_id chunk) then
        (let newSessionId = or_else (session_id chunk) [];
             w1 = (if truthy (currentPendingId (chat w)) then
                     (let messagesToCache = messages (chat w) @
                            (case streamingMessage (chat w) of None \<Rightarrow> []
                             | Some sm \<Rightarrow> [sm\<lparr>m_isStreaming := Some False\<rparr>])
                      in w\<lparr>sessionState :=
                             completeNewSession (or_else (currentPendingId (chat w)) [])
                               newSessionId messagesToCache (sessionState w),
                           chat := (chat w)\<lparr>currentPendingId := None\<rparr>\<rparr>)
                   else w)
         in if \<not> truthy (sessionId (chat w1)) \<or>
               prefix ''pending-'' (or_else (sessionId (chat w1)) [])
            then w1\<lparr>chat := (chat w1)\<lparr>sessionId := Some newSessionId\<rparr>,
                    effects := effects w1 @ [Navigate [''/chat'', newSessionId]]\<rparr>
            else w1)
      else
        (case streamingMessage (chat w) of
           None \<Rightarrow> w
         | Some sm \<Rightarrow>
             (let w1 =
                (if ctype chunk = ''chatter'' then
                   w\<lparr>chat := (chat w)\<lparr>streamingMessage := Some
                       (sm\<lparr>m_chatterEvents := Some
                          ((case m_chatterEvents sm of None \<Rightarrow> [] | Some es \<Rightarrow> es) @
                           [chatterEvent_of (clock w) chunk])\<rparr>)\<rparr>\<rparr>
                 else if ctype chunk = ''agent_start'' then
                   w\<lparr>chat := (chat w)\<lparr>streamingMessage := Some
                       (sm\<lparr>m_agentResponses := Some
                          ((case m_agentResponses sm of None \<Rightarrow> [] | Some rs \<Rightarrow> rs) @
                           [\<lparr>ar_agentName = or_else (agentName chunk) ''Agent'',
                             ar_content = []\<rparr>])\<rparr>)\<rparr>\<rparr>
                 else if ctype chunk = ''content'' then
                   (let sm1 =
                      (case m_agentResponses sm of
                         None \<Rightarrow> sm
                       | Some rs \<Rightarrow>
                           if length rs > 0 then
                             sm\<lparr>m_agentResponses := Some
                               (butlast rs @
                                [(last rs)\<lparr>ar_content :=
                                    ar_content (last rs) @ or_else (content chunk) []\<rparr>])\<rparr>
                           else sm)
                    in w\<lparr>chat := (chat w)\<lparr>streamingMessage := Some
                          (sm1\<lparr>m_content := m_content sm1 @ or_else (content chunk) []\<rparr>)\<rparr>\<rparr>)
                 else if ctype chunk = ''done'' then
                   (case session (chat w) of
                      None \<Rightarrow> w
                    | Some s \<Rightarrow>
                        if prefix ''Document:'' (s_title s)
                        then w\<lparr>sessionState := refreshSessions (sessionState w)\<rparr>
                        else w)
                 else w)
              in w1\<lparr>chat := (chat w1)\<lparr>shouldScroll := True\<rparr>\<rparr>)))"

text \<open>The \<^verbatim>\<open>error\<close> and \<^verbatim>\<open>complete\<close> handlers of the subscription in \<^verbatim>\<open>sendMessage\<close>.\<close>

definition on_error :: "bool \<Rightarrow> World \<Rightarrow> World" where
  "on_error isNewSession w =
     (let w1 = w\<lparr>chat := (chat w)\<lparr>isSending := False, streamingMessage := None\<rparr>\<rparr>
      in if isNewSession
         then w1\<lparr>sessionState := clearPendingSession (sessionState w1)\<rparr>
         else w1)"

definition on_complete :: "World \<Rightarrow> World" where
  "on_complete w =
     (let c = chat w
      in w\<lparr>chat := c\<lparr>isSending := False,
              messages := messages c @
                (case streamingMessage c of None \<Rightarrow> []
                 | Some sm \<Rightarrow> [sm\<lparr>m_isStreaming := Some False\<rparr>]),
              streamingMessage := None\<rparr>\<rparr>)"

section \<open>ChatService.streamChat: driving one turn\<close>

text \<open>
  A notification of the subject reaches the view unless the subscription went through
  \<^verbatim>\<open>takeUntil\<close> and \<^verbatim>\<open>destroy$\<close> has fired since.
\<close>

definition subscribed :: "Turn \<Rightarrow> World \<Rightarrow> bool" where
  "subscribed t w = (\<not> (t_takeUntil t \<and> destroyed (chat w)))"

definition stream_ended :: "Turn \<Rightarrow> World \<Rightarrow> World" where
  "stream_ended t w =
     (if t_takeUntil t then w\<lparr>chat := (chat w)\<lparr>liveFollowUps := liveFollowUps (chat w) - 1\<rparr>\<rparr>
      else w)"

definition subject_next :: "Turn \<Rightarrow> StreamChunk \<Rightarrow> World \<Rightarrow> World" where
  "subject_next t data w =
     (if subscribed t w then handleStreamChunk data (t_isNewSession t) w else w)"

definition subject_complete :: "Turn \<Rightarrow> World \<Rightarrow> World" where
  "subject_complete t w = (if subscribed t w then stream_ended t (on_complete w) else w)"

definition subject_error :: "Turn \<Rightarrow> World \<Rightarrow> World" where
  "subject_error t w =
     (if subscribed t w then stream_ended t (on_error (t_isNewSession t) w) else w)"

text \<open>
  \<^verbatim>\<open>newSessionCompleteCallbacks\<close> holds the one callback that the constructor of
  \<^verbatim>\<open>SessionStateService\<close> registers.
\<close>

definition notify_callbacks :: "Turn \<Rightarrow> StreamChunk \<Rightarrow> World \<Rightarrow> World" where
  "notify_callbacks t data w =
     (if ctype data = ''done'' \<and> truthy (rq_pendingSessionId (t_request t)) \<and>
         truthy (session_id data)
      then w\<lparr>sessionState :=
               handleNewSessionComplete (or_else (rq_pendingSessionId (t_request t)) [])
                 (or_else (session_id data) []) (sessionState w)\<rparr>
      else w)"

definition emit :: "Turn \<Rightarrow> StreamChunk \<Rightarrow> World \<Rightarrow> World" where
  "emit t data w = notify_callbacks t data (subject_next t data w)"

text \<open>
  The stream from a point of the read loop to its end: the chunks that the reader still
  returns, and whether it then reports the end (\<open>False\<close>) or rejects (\<open>True\<close>). The
  console is not part of the \<open>World\<close>, so the report of a parse failure leaves it as it is.
\<close>

definition stream_rest ::
  "('d \<Rightarrow> char \<Rightarrow> string \<times> 'd) \<Rightarrow> (string \<Rightarrow> StreamChunk option) \<Rightarrow> Turn \<Rightarrow> string list \<Rightarrow> bool \<Rightarrow>
   string \<times> 'd \<times> World \<Rightarrow> World" where
  "stream_rest utf8 parse t chunks rejects s =
     (case read_loop utf8 parse (emit t) (\<lambda>w. w) chunks s of
        (buffer, d, w) \<Rightarrow> if rejects then subject_error t w else subject_complete t w)"

datatype response =
    FetchRejected
  | Response (ok: bool) (body: "(string list \<times> bool) option")

definition streamChat ::
  "('d \<Rightarrow> char \<Rightarrow> string \<times> 'd) \<Rightarrow> 'd \<Rightarrow> (string \<Rightarrow> StreamChunk option) \<Rightarrow> Turn \<Rightarrow> response \<Rightarrow>
   World \<Rightarrow> World" where
  "streamChat utf8 d0 parse t resp w =
     (case resp of
        FetchRejected \<Rightarrow> subject_error t w
      | Response is_ok rbody \<Rightarrow>
          if \<not> is_ok then subject_error t w
          else (case rbody of
                  None \<Rightarrow> subject_error t w
                | Some (chunks, rejects) \<Rightarrow>
                    stream_rest utf8 parse t chunks rejects ([], d0, w)))"

section \<open>Whole turns\<close>

text \<open>
  One turn from the submit to the end of its stream: \<^verbatim>\<open>sendMessage\<close> of the view, then
  \<^verbatim>\<open>streamChat\<close> on the response. When \<^verbatim>\<open>sendMessage\<close> returns early no stream is
  opened.
\<close>

definition turn_of_submit ::
  "('d \<Rightarrow> char \<Rightarrow> string \<times> 'd) \<Rightarrow> 'd \<Rightarrow> (string \<Rightarrow> StreamChunk option) \<Rightarrow> string \<Rightarrow> response \<Rightarrow>
   World \<Rightarrow> World" where
  "turn_of_submit utf8 d0 parse contentText resp w =
     (case sendMessage contentText w of
        (w1, None) \<Rightarrow> w1
      | (w1, Some t) \<Rightarrow> streamChat utf8 d0 parse t resp w1)"

text \<open>
  The same stream with the view torn down in the middle: the reader returns \<open>chunks1\<close>,
  then \<^verbatim>\<open>ngOnDestroy\<close> runs, then the reader returns \<open>chunks2\<close> and reports the end.
  The buffer and the decoder state of the loop are carried across.
\<close>

definition turn_with_teardown ::
  "('d \<Rightarrow> char \<Rightarrow> string \<times> 'd) \<Rightarrow> 'd \<Rightarrow> (string \<Rightarrow> StreamChunk option) \<Rightarrow> Turn \<Rightarrow>
   string list \<Rightarrow> string list \<Rightarrow> World \<Rightarrow> World" where
  "turn_with_teardown utf8 d0 parse t chunks1 chunks2 w =
     (case read_loop utf8 parse (emit t) (\<lambda>w. w) chunks1 ([], d0, w) of
        (buffer, d, w1) \<Rightarrow> stream_rest utf8 parse t chunks2 False (buffer, d, ngOnDestroy w1))"

definition turn_of_submit_teardown ::
  "('d \<Rightarrow> char \<Rightarrow> string \<times> 'd) \<Rightarrow> 'd \<Rightarrow> (string \<Rightarrow> StreamChunk option) \<Rightarrow> string \<Rightarrow>
   string list \<Rightarrow> string list \<Rightarrow> World \<Rightarrow> World" where
  "turn_of_submit_teardown utf8 d0 parse contentText chunks1 chunks2 w =
     (case sendMessage contentText w of
        (w1, None) \<Rightarrow> w1
      | (w1, Some t) \<Rightarrow> turn_with_teardown utf8 d0 parse t chunks1 chunks2 w1)"


section \<open>Concrete states and inputs\<close>

text \<open>
  Two new-session turns in flight at once: each registered its pending id and set the
  optimistic slot, so the slot shows the second one.
\<close>

definition two_turns_state :: SessionState where
  "two_turns_state =
     run_broker
       [RegisterActiveStream ''pending-1'',
        SetPendingSession (Some \<lparr>s_id = ''pending-1'', s_title = ''first'',
          s_orchestrationType = ''sequential'', s_selectedAgents = [], s_documents = None,
          s_createdAt = 1, s_lastMessageAt = 1, s_messageCount = 1\<rparr>),
        RegisterActiveStream ''pending-2'',
        SetPendingSession (Some \<lparr>s_id = ''pending-2'', s_title = ''second'',
          s_orchestrationType = ''sequential'', s_selectedAgents = [], s_documents = None,
          s_createdAt = 2, s_lastMessageAt = 2, s_messageCount = 1\<rparr>)]
       initialState"

text \<open>
  A decoder for streams of one-byte characters, the chunks that carry no field but their
  type, and \<^verbatim>\<open>JSON.parse\<close> restricted to three record bodies (it throws on every
  other text).
\<close>

definition ascii :: "unit \<Rightarrow> char \<Rightarrow> string \<times> unit" where
  "ascii d b = ([b], d)"

definition chunk :: "string \<Rightarrow> StreamChunk" where
  "chunk t = \<lparr>ctype = t, agentId = None, agentName = None, content = None, session_id = None,
     metadata = None, chatter_type = None, agent_name = None, tool_name = None,
     tool_args = None, duration_ms = None, tokens_input = None, tokens_output = None,
     friendly_message = None\<rparr>"

definition hi_chunk :: StreamChunk where
  "hi_chunk = (chunk ''content'')\<lparr>content := Some ''Hi''\<rparr>"

definition done_chunk :: StreamChunk where
  "done_chunk = (chunk ''done'')\<lparr>session_id := Some ''S9''\<rparr>"

definition error_chunk :: StreamChunk where
  "error_chunk = (chunk ''error'')\<lparr>content := Some ''boom''\<rparr>"

definition parse_sample :: "string \<Rightarrow> StreamChunk option" where
  \<open>parse_sample s =
     (if s = ''{"type":"content","content":"Hi"}'' then Some hi_chunk
      else if s = ''{"type":"done","session_id":"S9"}'' then Some done_chunk
      else if s = ''{"type":"error","content":"boom"}'' then Some error_chunk
      else None)\<close>

text \<open>
  Record texts of the wire format, the last one cut off in the middle of its body, and a
  stream of two records whose second record and whose last separator are split between
  chunks.
\<close>

definition wire_hi :: string where
  \<open>wire_hi = ''data: {"type":"content","content":"Hi"}''\<close>

definition wire_done :: string where
  \<open>wire_done = ''data: {"type":"done","session_id":"S9"}''\<close>

definition wire_error :: string where
  \<open>wire_error = ''data: {"type":"error","content":"boom"}''\<close>

definition wire_bad :: string where
  \<open>wire_bad = ''data: {"type":"content",''\<close>

definition split_stream :: "string list" where
  "split_stream = [frame wire_hi @ take 10 wire_done, drop 10 wire_done @ [CHR 0x0A], [CHR 0x0A]]"

text \<open>
  A view on the new-chat route before anything was sent, the turn that it starts for the
  message \<open>hello\<close>, and the state in which the pending id of that turn has been resolved.
\<close>

definition fresh_chat :: ChatComponent where
  "fresh_chat = \<lparr>sessionId = None, session = None, messages = [], selectedAgentIds = [],
     orchestrationType = ''sequential'', uploadedFiles = [], uploadingFile = None,
     uploadError = None, isLoading = False, isSending = False, streamingMessage = None,
     shouldScroll = False, currentPendingId = None, destroyed = False, liveFollowUps = 0\<rparr>"

definition fresh_world :: World where
  "fresh_world = \<lparr>clock = 1712, sessionState = initialState, chat = fresh_chat, effects = []\<rparr>"

definition sample_turn :: Turn where
  "sample_turn = \<lparr>t_request = \<lparr>rq_message = ''hello'', rq_sessionId = None,
       rq_orchestrationType = Some ''sequential'', rq_agentIds = None,
       rq_includeDocuments = None, rq_pendingSessionId = Some ''pending-1712''\<rparr>,
     t_isNewSession = True, t_takeUntil = False\<rparr>"

definition resolved_world :: World where
  "resolved_world =
     fresh_world\<lparr>sessionState :=
       run_broker [RegisterActiveStream ''pending-1712'', CompleteNewSession ''pending-1712'' ''S9'' []]
         initialState\<rparr>"



section \<open>Properties of the session identity broker\<close>

lemmas broker_defs =
  setActiveSession_def refreshSessions_def setPendingSession_def clearPendingSession_def
  mapPendingToReal_def clearPendingMapping_def cacheMessages_def popCachedMessages_def
  registerActiveStream_def completeNewSession_def handleNewSessionComplete_def

lemma completeNewSession_unregistered:
  "pendingId \<notin> activeNewSessionStreams st \<Longrightarrow> completeNewSession pendingId realId msgs st = st"
  by (simp add: completeNewSession_def)

lemma handleNewSessionComplete_unregistered:
  "pendingId \<notin> activeNewSessionStreams st \<Longrightarrow> handleNewSessionComplete pendingId realId st = st"
  by (simp add: handleNewSessionComplete_def)

lemma apply_broker_op_registry:
  "x \<noteq> RegisterActiveStream p \<Longrightarrow> p \<notin> activeNewSessionStreams st \<Longrightarrow>
   p \<notin> activeNewSessionStreams (apply_broker_op x st)"
  by (cases x) (auto simp: broker_defs Let_def split: option.splits)

lemma run_broker_registry:
  "RegisterActiveStream p \<notin> set ops \<Longrightarrow> p \<notin> activeNewSessionStreams st \<Longrightarrow>
   p \<notin> activeNewSessionStreams (run_broker ops st)"
proof (induction ops arbitrary: st)
  case Nil
  then show ?case by simp
next
  case (Cons x xs)
  from Cons.prems have "x \<noteq> RegisterActiveStream p" and "RegisterActiveStream p \<notin> set xs"
    by auto
  with Cons.prems(2) Cons.IH [of "apply_broker_op x st"] apply_broker_op_registry [of x p st]
  show ?case by simp
qed

section \<open>Properties of the stream decoder\<close>

lemma split_nn_nonempty: "split_nn s \<noteq> []"
  by (induction s rule: split_nn.induct) (auto simp: Let_def)

lemma split_nn_single: "split_nn s = [x] \<Longrightarrow> x = s"
proof (induction s arbitrary: x rule: split_nn.induct)
  case 1
  then show ?case by simp
next
  case (2 c)
  then show ?case by simp
next
  case (3 c d cs)
  show ?case
  proof (cases "c = CHR 0x0A \<and> d = CHR 0x0A")
    case True
    with "3.prems" split_nn_nonempty [of cs] show ?thesis by simp
  next
    case False
    obtain y ys where r: "split_nn (d # cs) = y # ys"
      using split_nn_nonempty [of "d # cs"] by (cases "split_nn (d # cs)") auto
    with False "3.prems" have "ys = []" and x: "x = c # y" by (auto simp: Let_def)
    with r "3.IH"(2) [of y] False have "y = d # cs" by simp
    with x show ?thesis by simp
  qed
qed

lemma split_nn_step:
  "\<not> (c = CHR 0x0A \<and> d = CHR 0x0A) \<Longrightarrow>
   split_nn (c # d # cs) = (c # hd (split_nn (d # cs))) # tl (split_nn (d # cs))"
  by (simp add: Let_def)

lemma split_nn_append:
  "split_nn (a @ t) = butlast (split_nn a) @ split_nn (last (split_nn a) @ t)"
proof (induction a rule: split_nn.induct)
  case 1
  then show ?case by simp
next
  case (2 c)
  then show ?case by simp
next
  case (3 c d cs)
  show ?case
  proof (cases "c = CHR 0x0A \<and> d = CHR 0x0A")
    case True
    with "3.IH"(1) split_nn_nonempty [of cs] show ?thesis by simp
  next
    case False
    obtain y ys where r: "split_nn (d # cs) = y # ys"
      using split_nn_nonempty [of "d # cs"] by (cases "split_nn (d # cs)") auto
    have ih: "split_nn (d # cs @ t) = butlast (y # ys) @ split_nn (last (y # ys) @ t)"
      using "3.IH"(2) False r by simp
    have lhs: "split_nn ((c # d # cs) @ t) =
        (c # hd (split_nn (d # cs @ t))) # tl (split_nn (d # cs @ t))"
      using split_nn_step [OF False, of "cs @ t"] by simp
    have whole: "split_nn (c # d # cs) = (c # y) # ys"
      using split_nn_step [OF False, of cs] r by simp
    show ?thesis
    proof (cases ys)
      case Nil
      with r have y: "y = d # cs" using split_nn_single by blast
      have "split_nn ((c # y) @ t) = (c # hd (split_nn (d # cs @ t))) # tl (split_nn (d # cs @ t))"
        using lhs y by simp
      with lhs whole Nil show ?thesis by simp
    next
      case (Cons z zs)
      with ih have "split_nn (d # cs @ t) = y # butlast ys @ split_nn (last ys @ t)" by simp
      with lhs whole Cons show ?thesis by simp
    qed
  qed
qed

lemma split_nn_last_single: "split_nn (last (split_nn s)) = [last (split_nn s)]"
proof (induction s rule: split_nn.induct)
  case 1
  then show ?case by simp
next
  case (2 c)
  then show ?case by simp
next
  case (3 c d cs)
  show ?case
  proof (cases "c = CHR 0x0A \<and> d = CHR 0x0A")
    case True
    with "3.IH"(1) split_nn_nonempty [of cs] show ?thesis by simp
  next
    case False
    obtain y ys where r: "split_nn (d # cs) = y # ys"
      using split_nn_nonempty [of "d # cs"] by (cases "split_nn (d # cs)") auto
    have whole: "split_nn (c # d # cs) = (c # y) # ys"
      using split_nn_step [OF False, of cs] r by simp
    show ?thesis
    proof (cases ys)
      case Nil
      with r have "y = d # cs" using split_nn_single by blast
      with Nil whole show ?thesis by simp
    next
      case (Cons z zs)
      with r "3.IH"(2) False whole show ?thesis by simp
    qed
  qed
qed

lemma decode_stream_append:
  "decode_stream utf8 d (a @ b) =
     (let (t1, d1) = decode_stream utf8 d a; (t2, d2) = decode_stream utf8 d1 b in (t1 @ t2, d2))"
  by (induction a arbitrary: d) (auto simp: Let_def split: prod.splits)

lemma read_loop_text:
  assumes "split_nn buffer = [buffer]"
  shows "read_loop utf8 parse em rp chunks (buffer, d, w) =
     (let (text, d1) = decode_stream utf8 d (concat chunks); lines = split_nn (buffer @ text)
      in (last lines, d1, foldl (process_line parse em rp) w (butlast lines)))"
  using assms
proof (induction chunks arbitrary: buffer d w)
  case Nil
  then show ?case by (simp add: Let_def)
next
  case (Cons v vs)
  obtain t1 d1 where v: "decode_stream utf8 d v = (t1, d1)" by (cases "decode_stream utf8 d v")
  obtain t2 d2 where vs: "decode_stream utf8 d1 (concat vs) = (t2, d2)"
    by (cases "decode_stream utf8 d1 (concat vs)")
  let ?b1 = "last (split_nn (buffer @ t1))"
  let ?w1 = "foldl (process_line parse em rp) w (butlast (split_nn (buffer @ t1)))"
  have step: "read_step utf8 parse em rp v (buffer, d, w) = (?b1, d1, ?w1)"
    by (simp add: read_step_def v Let_def)
  have single: "split_nn ?b1 = [?b1]" by (rule split_nn_last_single)
  have whole: "split_nn (buffer @ t1 @ t2) =
      butlast (split_nn (buffer @ t1)) @ split_nn (?b1 @ t2)"
    using split_nn_append [of "buffer @ t1" t2] by simp
  have ne: "split_nn (?b1 @ t2) \<noteq> []" by (rule split_nn_nonempty)
  show ?case
    using Cons.IH [OF single, of d1 ?w1] step v vs whole ne
    by (simp add: Let_def decode_stream_append butlast_append)
qed

lemma foldl_snoc_events:
  "foldl (process_line parse (\<lambda>data evs. evs @ [data]) (\<lambda>evs. evs)) evs ls =
     evs @ List.map_filter (event_of parse) ls"
  by (induction ls arbitrary: evs) (auto simp: process_line_def event_of_def List.map_filter_simps split: option.splits)

lemma sse_events_text:
  "sse_events utf8 d0 parse chunks =
     List.map_filter (event_of parse) (butlast (split_nn (fst (decode_stream utf8 d0 (concat chunks)))))"
  unfolding sse_events_def
  using read_loop_text [of "[]" utf8 parse "\<lambda>data evs. evs @ [data]" "\<lambda>evs. evs" chunks d0 "[]"]
  by (simp add: Let_def foldl_snoc_events split: prod.splits)

lemma foldl_process_line:
  "foldl (process_line parse em (\<lambda>w. w)) w ls =
     foldl (\<lambda>w data. em data w) w (List.map_filter (event_of parse) ls)"
  by (induction ls arbitrary: w) (auto simp: process_line_def event_of_def List.map_filter_simps split: option.splits)

lemma read_loop_events:
  "snd (snd (read_loop utf8 parse em (\<lambda>w. w) chunks ([], d0, w))) =
     foldl (\<lambda>w data. em data w) w (sse_events utf8 d0 parse chunks)"
  using read_loop_text [of "[]" utf8 parse em "\<lambda>w. w" chunks d0 w]
  by (simp add: Let_def foldl_process_line sse_events_text split: prod.splits)

lemma stream_rest_events:
  "stream_rest utf8 parse t chunks rejects ([], d0, w) =
     (let w1 = foldl (\<lambda>w data. emit t data w) w (sse_events utf8 d0 parse chunks)
      in if rejects then subject_error t w1 else subject_complete t w1)"
  using read_loop_events [of utf8 parse "emit t" chunks d0 w]
  by (cases "read_loop utf8 parse (emit t) (\<lambda>w. w) chunks ([], d0, w)")
    (auto simp: stream_rest_def Let_def)

lemma split_nn_frame: "record_text l \<Longrightarrow> split_nn (frame l @ rest) = l # split_nn rest"
  by (induction l rule: record_text.induct) (auto simp: frame_def Let_def)

lemma split_nn_frames:
  "\<forall>l\<in>set ls. record_text l \<Longrightarrow> split_nn (concat (map frame ls)) = ls @ [[]]"
  by (induction ls) (auto simp: split_nn_frame)


lemma sse_events_concat:
  "concat chunks = concat chunks' \<Longrightarrow>
   sse_events utf8 d0 parse chunks = sse_events utf8 d0 parse chunks'"
  by (simp add: sse_events_text)

lemma sse_events_records:
  assumes "\<forall>l\<in>set ls. record_text l"
    and "fst (decode_stream utf8 d0 (concat chunks)) = concat (map frame ls)"
  shows "sse_events utf8 d0 parse chunks = List.map_filter (event_of parse) ls"
  using assms by (simp add: sse_events_text split_nn_frames)

lemma foldl_logged:
  "foldl (process_line parse (\<lambda>data n. n) Suc) n ls =
     n + length (filter (\<lambda>l. prefix ''data: '' l \<and> parse (drop 6 l) = None) ls)"
  by (induction ls arbitrary: n) (auto simp: process_line_def split: option.splits)

lemma sse_logged_records:
  assumes "\<forall>l\<in>set ls. record_text l"
    and "fst (decode_stream utf8 d0 (concat chunks)) = concat (map frame ls)"
  shows "sse_logged utf8 d0 parse chunks =
     length (filter (\<lambda>l. prefix ''data: '' l \<and> parse (drop 6 l) = None) ls)"
  unfolding sse_logged_def
  using assms read_loop_text [of "[]" utf8 parse "\<lambda>data n. n" Suc chunks d0 0]
  by (simp add: Let_def foldl_logged split_nn_frames split: prod.splits)

lemma map_filter_well_formed:
  "\<forall>l\<in>set ls. well_formed_record parse l \<Longrightarrow>
   List.map_filter (event_of parse) ls = map (\<lambda>l. the (parse (drop 6 l))) ls"
  by (induction ls) (auto simp: List.map_filter_simps event_of_def well_formed_record_def)

lemma read_loop_append:
  "read_loop utf8 parse em rp (xs @ ys) s =
     read_loop utf8 parse em rp ys (read_loop utf8 parse em rp xs s)"
  by (induction xs arbitrary: s) auto

lemma foldl_snoc: "foldl (\<lambda>w e. w @ [e]) evs0 xs = evs0 @ xs"
  by (induction xs arbitrary: evs0) auto

lemma read_step_fold:
  "read_step utf8 parse em (\<lambda>w. w) v (b, d, w) =
     (last (split_nn (b @ fst (decode_stream utf8 d v))), snd (decode_stream utf8 d v),
      foldl (\<lambda>w e. em e w) w
        (List.map_filter (event_of parse) (butlast (split_nn (b @ fst (decode_stream utf8 d v))))))"
  by (simp add: read_step_def Let_def foldl_process_line split: prod.splits)

lemma read_loop_fold:
  "\<exists>b1 d1 evs.
     (\<forall>w. read_loop utf8 parse em (\<lambda>w. w) chunks (b, d, w) = (b1, d1, foldl (\<lambda>w e. em e w) w evs)) \<and>
     (\<forall>evs0. read_loop utf8 parse (\<lambda>data evs. evs @ [data]) (\<lambda>evs. evs) chunks (b, d, evs0) =
        (b1, d1, evs0 @ evs))"
proof (induction chunks arbitrary: b d)
  case Nil
  have "(\<forall>w. read_loop utf8 parse em (\<lambda>w. w) [] (b, d, w) = (b, d, foldl (\<lambda>w e. em e w) w [])) \<and>
     (\<forall>evs0. read_loop utf8 parse (\<lambda>data evs. evs @ [data]) (\<lambda>evs. evs) [] (b, d, evs0) = (b, d, evs0 @ []))"
    by simp
  then show ?case by blast
next
  case (Cons v vs)
  let ?b2 = "last (split_nn (b @ fst (decode_stream utf8 d v)))"
  let ?d2 = "snd (decode_stream utf8 d v)"
  let ?new = "List.map_filter (event_of parse) (butlast (split_nn (b @ fst (decode_stream utf8 d v))))"
  from Cons.IH [of ?b2 ?d2] obtain b1 d1 evs where
    ih1: "\<And>w. read_loop utf8 parse em (\<lambda>w. w) vs (?b2, ?d2, w) = (b1, d1, foldl (\<lambda>w e. em e w) w evs)" and
    ih2: "\<And>evs0. read_loop utf8 parse (\<lambda>data evs. evs @ [data]) (\<lambda>evs. evs) vs (?b2, ?d2, evs0) =
        (b1, d1, evs0 @ evs)"
    by blast
  have snoc: "\<And>evs0. foldl (\<lambda>w e. w @ [e]) evs0 ?new = evs0 @ ?new"
    by (rule foldl_snoc)
  have "(\<forall>w. read_loop utf8 parse em (\<lambda>w. w) (v # vs) (b, d, w) =
           (b1, d1, foldl (\<lambda>w e. em e w) w (?new @ evs))) \<and>
     (\<forall>evs0. read_loop utf8 parse (\<lambda>data evs. evs @ [data]) (\<lambda>evs. evs) (v # vs) (b, d, evs0) =
        (b1, d1, evs0 @ (?new @ evs)))"
    by (simp add: read_step_fold ih1 ih2 snoc)
  then show ?case by blast
qed

section \<open>Properties of one turn\<close>

lemma handleNewSessionComplete_after_complete:
  "handleNewSessionComplete p r (completeNewSession p r' m st) = completeNewSession p r' m st"
  by (simp add: handleNewSessionComplete_def completeNewSession_def Let_def broker_defs)

lemma completeNewSession_registered:
  assumes "p \<in> activeNewSessionStreams st"
  shows "pendingSession (completeNewSession p r m st) = None"
    and "pendingToRealMap (completeNewSession p r m st) p = Some r"
    and "sessionsRefresh (completeNewSession p r m st) = Suc (sessionsRefresh st)"
    and "p \<notin> activeNewSessionStreams (completeNewSession p r m st)"
  using assms by (simp_all add: broker_defs Let_def)

lemma handleStreamChunk_not_done:
  assumes "ctype e \<noteq> ''done''"
  shows "sessionState (handleStreamChunk e b w) = sessionState w"
    and "currentPendingId (chat (handleStreamChunk e b w)) = currentPendingId (chat w)"
    and "sessionId (chat (handleStreamChunk e b w)) = sessionId (chat w)"
    and "destroyed (chat (handleStreamChunk e b w)) = destroyed (chat w)"
    and "effects (handleStreamChunk e b w) = effects w"
  using assms by (simp_all add: handleStreamChunk_def Let_def split: option.splits)

lemma emit_not_done:
  assumes "ctype e \<noteq> ''done''"
  shows "sessionState (emit t e w) = sessionState w"
    and "currentPendingId (chat (emit t e w)) = currentPendingId (chat w)"
    and "sessionId (chat (emit t e w)) = sessionId (chat w)"
    and "destroyed (chat (emit t e w)) = destroyed (chat w)"
  using assms handleStreamChunk_not_done [OF assms]
  by (simp_all add: emit_def notify_callbacks_def subject_next_def)

lemma emit_done_new:
  assumes "t_isNewSession t" "\<not> t_takeUntil t" "ctype e = ''done''" "session_id e = Some rid"
    "rid \<noteq> []" "currentPendingId (chat w) = Some pid" "pid \<noteq> []"
    "rq_pendingSessionId (t_request t) = Some pid"
  shows "sessionState (emit t e w) =
     completeNewSession pid rid
       (messages (chat w) @
          (case streamingMessage (chat w) of None \<Rightarrow> []
           | Some sm \<Rightarrow> [sm\<lparr>m_isStreaming := Some False\<rparr>]))
       (sessionState w)"
  using assms
  by (simp add: emit_def notify_callbacks_def subject_next_def subscribed_def
      handleStreamChunk_def Let_def truthy_def or_else_def handleNewSessionComplete_after_complete)

lemma ngOnDestroy_keeps:
  "sessionState (ngOnDestroy w) = sessionState w"
  "currentPendingId (chat (ngOnDestroy w)) = currentPendingId (chat w)"
  "sessionId (chat (ngOnDestroy w)) = sessionId (chat w)"
  "destroyed (chat (ngOnDestroy w))"
  by (simp_all add: ngOnDestroy_def Let_def)

lemma subject_complete_keeps: "sessionState (subject_complete t w) = sessionState w"
  by (simp add: subject_complete_def stream_ended_def on_complete_def Let_def)

lemma subject_complete_destroyed: "destroyed (chat (subject_complete t w)) = destroyed (chat w)"
  by (simp add: subject_complete_def stream_ended_def on_complete_def Let_def)

lemma emit_destroyed: "destroyed (chat (emit t e w)) = destroyed (chat w)"
  by (simp add: emit_def notify_callbacks_def subject_next_def handleStreamChunk_def Let_def
      split: option.splits)

lemma pending_id_nonempty: "''pending-'' @ x \<noteq> []"
  by simp

lemma sendMessage_new_turn:
  assumes "trim contentText \<noteq> []" "\<not> isSending (chat w0)" "\<not> truthy (sessionId (chat w0))"
  shows "\<exists>w1 t. sendMessage contentText w0 = (w1, Some t) \<and> t_isNewSession t \<and> \<not> t_takeUntil t \<and>
     rq_pendingSessionId (t_request t) = Some (''pending-'' @ string_of_nat (clock w0)) \<and>
     currentPendingId (chat w1) = Some (''pending-'' @ string_of_nat (clock w0)) \<and>
     ''pending-'' @ string_of_nat (clock w0) \<in> activeNewSessionStreams (sessionState w1) \<and>
     map_option s_id (pendingSession (sessionState w1)) =
       Some (''pending-'' @ string_of_nat (clock w0)) \<and>
     sessionsRefresh (sessionState w1) = sessionsRefresh (sessionState w0)"
  using assms
  by (simp add: sendMessage_def Let_def setPendingSession_def registerActiveStream_def)

lemma resolved_after_done:
  assumes "t_isNewSession t" "\<not> t_takeUntil t"
    and "rq_pendingSessionId (t_request t) = Some pid" "pid \<noteq> []"
    and "currentPendingId (chat w) = Some pid"
    and "pid \<in> activeNewSessionStreams (sessionState w)"
    and "ctype e = ''done''" "session_id e = Some rid" "rid \<noteq> []"
  shows "pendingSession (sessionState (emit t e w)) = None"
    and "getRealSessionId pid (sessionState (emit t e w)) = Some rid"
    and "sessionsRefresh (sessionState (emit t e w)) = Suc (sessionsRefresh (sessionState w))"
    and "pid \<notin> activeNewSessionStreams (sessionState (emit t e w))"
  unfolding emit_done_new [OF assms(1,2,7,8,9,5,4,3)] getRealSessionId_def
  using completeNewSession_registered [OF assms(6)] by simp_all

lemma handleStreamChunk_done_new_view:
  assumes "ctype e = ''done''" "session_id e = Some rid" "rid \<noteq> []"
    and "currentPendingId (chat w) = Some pid" "pid \<noteq> []"
  shows "currentPendingId (chat (emit t e w)) = (if subscribed t w \<and> t_isNewSession t then None else Some pid)"
  using assms
  by (simp add: emit_def notify_callbacks_def subject_next_def  handleStreamChunk_def Let_def truthy_def or_else_def split: option.splits)

lemma turn_with_teardown_events:
  assumes "sse_events utf8 d0 parse chunks1 = evs1"
    and "sse_events utf8 d0 parse (chunks1 @ chunks2) = evs1 @ evs2"
  shows "turn_with_teardown utf8 d0 parse t chunks1 chunks2 w =
     subject_complete t
       (foldl (\<lambda>w e. emit t e w) (ngOnDestroy (foldl (\<lambda>w e. emit t e w) w evs1)) evs2)"
proof -
  obtain b1 d1 evsA where
    a1: "\<And>w. read_loop utf8 parse (emit t) (\<lambda>w. w) chunks1 ([], d0, w) =
        (b1, d1, foldl (\<lambda>w e. emit t e w) w evsA)" and
    a2: "\<And>evs0. read_loop utf8 parse (\<lambda>data evs. evs @ [data]) (\<lambda>evs. evs) chunks1 ([], d0, evs0) =
        (b1, d1, evs0 @ evsA)"
    using read_loop_fold [of utf8 parse "emit t" chunks1 "[]" d0] by blast
  obtain b2 d2 evsB where
    b1: "\<And>w. read_loop utf8 parse (emit t) (\<lambda>w. w) chunks2 (b1, d1, w) =
        (b2, d2, foldl (\<lambda>w e. emit t e w) w evsB)" and
    b2: "\<And>evs0. read_loop utf8 parse (\<lambda>data evs. evs @ [data]) (\<lambda>evs. evs) chunks2 (b1, d1, evs0) =
        (b2, d2, evs0 @ evsB)"
    using read_loop_fold [of utf8 parse "emit t" chunks2 b1 d1] by blast
  have A: "evsA = evs1"
    using assms(1) a2 [of "[]"] by (simp add: sse_events_def)
  have "sse_events utf8 d0 parse (chunks1 @ chunks2) = evsA @ evsB"
    by (simp add: sse_events_def read_loop_append a2 b2)
  with assms(2) A have B: "evsB = evs2" by simp
  show ?thesis
    by (simp add: turn_with_teardown_def a1 stream_rest_def b1 A B)
qed

lemma content_delta_appended:
  assumes "streamingMessage (chat w) = Some sm" "ctype e = ''content''"
  shows "map_option m_content (streamingMessage (chat (handleStreamChunk e isNew w))) =
           Some (m_content sm @ or_else (content e) [])"
    and "map_option m_agentResponses (streamingMessage (chat (handleStreamChunk e isNew w))) =
           Some (case m_agentResponses sm of
                   None \<Rightarrow> None
                 | Some [] \<Rightarrow> Some []
                 | Some (r # rs) \<Rightarrow>
                     Some (butlast (r # rs) @
                           [(last (r # rs))\<lparr>ar_content :=
                              ar_content (last (r # rs)) @ or_else (content e) []\<rparr>]))"
  using assms
  by (simp_all add: handleStreamChunk_def Let_def split: option.splits list.splits)

section \<open>Evaluation of the concrete inputs\<close>

lemmas sample_defs =
  ascii_def chunk_def parse_sample_def wire_hi_def wire_done_def wire_error_def frame_def
  hi_chunk_def done_chunk_def error_chunk_def split_stream_def fresh_world_def fresh_chat_def
  initialState_def

lemmas stream_defs =
  sse_events_def read_step_def process_line_def Let_def






lemma sample_turn_started: "snd (sendMessage ''hello'' fresh_world) = Some sample_turn"
  by (simp add: sendMessage_def sample_turn_def fresh_world_def fresh_chat_def trim_def
      is_space_def truthy_def Let_def string_of_nat.simps)

section \<open>The claims\<close>

text \<open>
  Claim C1 (end-to-end resolution of a new session). A non-blank message is sent from a
  view that has no session id and is not sending. Then \<^verbatim>\<open>sendMessage\<close> registers the
  pending id \<open>pending-\<close>\<^emph>\<open>clock\<close> and sets the Pending Session Slot to a descriptor with
  that id. When the stream yields a content event and then a done event that carries a
  non-empty session id, and ends, the slot is empty, the lookup of the pending id gives
  that session id, and the refresh subject has been published exactly once more than
  before the submit: the call of the service callback that follows
  \<^verbatim>\<open>completeNewSession\<close> finds the id no longer registered.
\<close>

theorem new_session_resolution:
  assumes "trim contentText \<noteq> []" "\<not> isSending (chat w0)" "\<not> truthy (sessionId (chat w0))"
    and "sse_events utf8 d0 parse chunks = [e1, e2]"
    and "ctype e1 = ''content''"
    and "ctype e2 = ''done''" "session_id e2 = Some realId" "realId \<noteq> []"
  shows "''pending-'' @ string_of_nat (clock w0) \<in>
           activeNewSessionStreams (sessionState (fst (sendMessage contentText w0))) \<and>
         map_option s_id (pendingSession (sessionState (fst (sendMessage contentText w0)))) =
           Some (''pending-'' @ string_of_nat (clock w0)) \<and>
         pendingSession (sessionState
           (turn_of_submit utf8 d0 parse contentText (Response True (Some (chunks, False))) w0)) = None \<and>
         getRealSessionId (''pending-'' @ string_of_nat (clock w0)) (sessionState
           (turn_of_submit utf8 d0 parse contentText (Response True (Some (chunks, False))) w0)) =
           Some realId \<and>
         sessionsRefresh (sessionState
           (turn_of_submit utf8 d0 parse contentText (Response True (Some (chunks, False))) w0)) =
           Suc (sessionsRefresh (sessionState w0))"
proof -
  let ?P1 = "''pending-'' @ string_of_nat (clock w0)"
  obtain w1 t where
    sm: "sendMessage contentText w0 = (w1, Some t)" and new: "t_isNewSession t" "\<not> t_takeUntil t"
    and rq: "rq_pendingSessionId (t_request t) = Some ?P1"
    and cur: "currentPendingId (chat w1) = Some ?P1"
    and reg: "?P1 \<in> activeNewSessionStreams (sessionState w1)"
    and slot: "map_option s_id (pendingSession (sessionState w1)) = Some ?P1"
    and rf: "sessionsRefresh (sessionState w1) = sessionsRefresh (sessionState w0)"
    using sendMessage_new_turn [OF assms(1-3)] by blast
  let ?w2 = "emit t e1 w1"
  let ?w3 = "emit t e2 ?w2"
  have nd: "ctype e1 \<noteq> ''done''" using assms(5) by simp
  have cur2: "currentPendingId (chat ?w2) = Some ?P1" and st2: "sessionState ?w2 = sessionState w1"
    using emit_not_done [OF nd, of t w1] cur by simp_all
  have reg2: "?P1 \<in> activeNewSessionStreams (sessionState ?w2)" using reg st2 by simp
  note res = resolved_after_done [OF new rq pending_id_nonempty cur2 reg2 assms(6,7,8)]
  have final: "turn_of_submit utf8 d0 parse contentText (Response True (Some (chunks, False))) w0 =
      subject_complete t ?w3"
    by (simp add: turn_of_submit_def sm streamChat_def stream_rest_events assms(4))
  show ?thesis
    unfolding final subject_complete_keeps
    using res reg slot st2 rf by (simp add: sm)
qed

text \<open>
  The instance of C1 with the message \<open>hello\<close>, the content \<open>Hi\<close> and the session id
  \<open>S9\<close>, on a stream whose records are split between chunks.
\<close>

theorem new_session_resolution_witness:
  "trim ''hello'' \<noteq> [] \<and> \<not> isSending (chat fresh_world) \<and> \<not> truthy (sessionId (chat fresh_world)) \<and>
   sse_events ascii () parse_sample split_stream = [hi_chunk, done_chunk] \<and>
   ctype hi_chunk = ''content'' \<and> content hi_chunk = Some ''Hi'' \<and>
   ctype done_chunk = ''done'' \<and> session_id done_chunk = Some ''S9'' \<and>
   ''pending-1712'' \<in> activeNewSessionStreams (sessionState (fst (sendMessage ''hello'' fresh_world))) \<and>
   map_option s_id (pendingSession (sessionState (fst (sendMessage ''hello'' fresh_world)))) =
     Some ''pending-1712'' \<and>
   pendingSession (sessionState (turn_of_submit ascii () parse_sample ''hello''
     (Response True (Some (split_stream, False))) fresh_world)) = None \<and>
   getRealSessionId ''pending-1712'' (sessionState (turn_of_submit ascii () parse_sample ''hello''
     (Response True (Some (split_stream, False))) fresh_world)) = Some ''S9'' \<and>
   sessionsRefresh (sessionState (turn_of_submit ascii () parse_sample ''hello''
     (Response True (Some (split_stream, False))) fresh_world)) = Suc 0"
proof -
  have h1: "trim ''hello'' \<noteq> []" by (simp add: trim_def is_space_def)
  have h2: "\<not> isSending (chat fresh_world)" by (simp add: fresh_world_def fresh_chat_def)
  have h3: "\<not> truthy (sessionId (chat fresh_world))"
    by (simp add: fresh_world_def fresh_chat_def truthy_def)
  have h4: "sse_events ascii () parse_sample split_stream = [hi_chunk, done_chunk]"
    by (simp add: sample_defs stream_defs)
  have h5: "ctype hi_chunk = ''content''" and h5': "content hi_chunk = Some ''Hi''"
    by (simp_all add: hi_chunk_def chunk_def)
  have h6: "ctype done_chunk = ''done''" and h7: "session_id done_chunk = Some ''S9''"
    by (simp_all add: done_chunk_def chunk_def)
  have h8: "''S9'' \<noteq> []" by simp
  have p: "''pending-'' @ string_of_nat (clock fresh_world) = ''pending-1712''"
    by (simp add: fresh_world_def string_of_nat.simps)
  have r: "sessionsRefresh (sessionState fresh_world) = 0"
    by (simp add: fresh_world_def initialState_def)
  show ?thesis
    using h1 h2 h3 h4 h5 h5' h6 h7 new_session_resolution [OF h1 h2 h3 h4 h5 h6 h7 h8]
    unfolding p r by blast
qed

text \<open>
  Claim C2 (teardown survival). As in C1, but \<^verbatim>\<open>ngOnDestroy\<close> of the view runs after the
  chunks that yield the content event and before those that complete the done event.
  The rest of the stream is still read, the done event still reaches the handler of the
  destroyed view (it clears \<^verbatim>\<open>currentPendingId\<close>), and the resolution still happens: the
  mapping is recorded, the slot is emptied, the pending id leaves the registry and the
  refresh subject is published once.
\<close>

theorem teardown_survival:
  assumes "trim contentText \<noteq> []" "\<not> isSending (chat w0)" "\<not> truthy (sessionId (chat w0))"
    and "sse_events utf8 d0 parse chunks1 = [e1]"
    and "sse_events utf8 d0 parse (chunks1 @ chunks2) = [e1, e2]"
    and "ctype e1 = ''content''"
    and "ctype e2 = ''done''" "session_id e2 = Some realId" "realId \<noteq> []"
  shows "destroyed (chat
           (turn_of_submit_teardown utf8 d0 parse contentText chunks1 chunks2 w0)) \<and>
         currentPendingId (chat
           (turn_of_submit_teardown utf8 d0 parse contentText chunks1 chunks2 w0)) = None \<and>
         getRealSessionId (''pending-'' @ string_of_nat (clock w0)) (sessionState
           (turn_of_submit_teardown utf8 d0 parse contentText chunks1 chunks2 w0)) = Some realId \<and>
         pendingSession (sessionState
           (turn_of_submit_teardown utf8 d0 parse contentText chunks1 chunks2 w0)) = None \<and>
         sessionsRefresh (sessionState
           (turn_of_submit_teardown utf8 d0 parse contentText chunks1 chunks2 w0)) =
           Suc (sessionsRefresh (sessionState w0)) \<and>
         ''pending-'' @ string_of_nat (clock w0) \<notin> activeNewSessionStreams (sessionState
           (turn_of_submit_teardown utf8 d0 parse contentText chunks1 chunks2 w0))"
proof -
  let ?P1 = "''pending-'' @ string_of_nat (clock w0)"
  obtain w1 t where
    sm: "sendMessage contentText w0 = (w1, Some t)" and new: "t_isNewSession t" "\<not> t_takeUntil t"
    and rq: "rq_pendingSessionId (t_request t) = Some ?P1"
    and cur: "currentPendingId (chat w1) = Some ?P1"
    and reg: "?P1 \<in> activeNewSessionStreams (sessionState w1)"
    and slot: "map_option s_id (pendingSession (sessionState w1)) = Some ?P1"
    and rf: "sessionsRefresh (sessionState w1) = sessionsRefresh (sessionState w0)"
    using sendMessage_new_turn [OF assms(1-3)] by blast
  let ?w2 = "ngOnDestroy (emit t e1 w1)"
  let ?w3 = "emit t e2 ?w2"
  have nd: "ctype e1 \<noteq> ''done''" using assms(6) by simp
  have cur2: "currentPendingId (chat ?w2) = Some ?P1" and st2: "sessionState ?w2 = sessionState w1"
    and gone: "destroyed (chat ?w2)"
    using emit_not_done [OF nd, of t w1] cur by (simp_all add: ngOnDestroy_keeps)
  have reg2: "?P1 \<in> activeNewSessionStreams (sessionState ?w2)" using reg st2 by simp
  note res = resolved_after_done [OF new rq pending_id_nonempty cur2 reg2 assms(7,8,9)]
  have sub: "subscribed t ?w2" using new by (simp add: subscribed_def)
  have cur3: "currentPendingId (chat ?w3) = None"
    using handleStreamChunk_done_new_view [OF assms(7,8,9) cur2 pending_id_nonempty, of t] sub new
    by simp
  have gone3: "destroyed (chat ?w3)"
    using gone by (simp add: emit_destroyed)
  have e12: "[e1, e2] = [e1] @ [e2]" by simp
  have final: "turn_of_submit_teardown utf8 d0 parse contentText chunks1 chunks2 w0 =
      subject_complete t ?w3"
    using turn_with_teardown_events [OF assms(4), of chunks2 "[e2]" t w1] assms(5)
    by (simp add: turn_of_submit_teardown_def sm)
  have cur4: "currentPendingId (chat (subject_complete t ?w3)) = None"
    using cur3 by (simp add: subject_complete_def stream_ended_def on_complete_def Let_def)
  show ?thesis
    unfolding final
    using res cur4 gone3 st2 rf
    by (simp add: subject_complete_keeps subject_complete_destroyed)
qed

text \<open>
  The instance of C2 with the view torn down in the middle of the done record.
\<close>

theorem teardown_survival_witness:
  "trim ''hello'' \<noteq> [] \<and> \<not> isSending (chat fresh_world) \<and> \<not> truthy (sessionId (chat fresh_world)) \<and>
   sse_events ascii () parse_sample [frame wire_hi @ take 10 wire_done] = [hi_chunk] \<and>
   sse_events ascii () parse_sample
     ([frame wire_hi @ take 10 wire_done] @ [drop 10 wire_done, [CHR 0x0A, CHR 0x0A]]) =
     [hi_chunk, done_chunk] \<and>
   destroyed (chat (turn_of_submit_teardown ascii () parse_sample ''hello''
     [frame wire_hi @ take 10 wire_done] [drop 10 wire_done, [CHR 0x0A, CHR 0x0A]] fresh_world)) \<and>
   getRealSessionId ''pending-1712'' (sessionState (turn_of_submit_teardown ascii () parse_sample
     ''hello'' [frame wire_hi @ take 10 wire_done] [drop 10 wire_done, [CHR 0x0A, CHR 0x0A]]
     fresh_world)) = Some ''S9'' \<and>
   pendingSession (sessionState (turn_of_submit_teardown ascii () parse_sample
     ''hello'' [frame wire_hi @ take 10 wire_done] [drop 10 wire_done, [CHR 0x0A, CHR 0x0A]]
     fresh_world)) = None \<and>
   sessionsRefresh (sessionState (turn_of_submit_teardown ascii () parse_sample
     ''hello'' [frame wire_hi @ take 10 wire_done] [drop 10 wire_done, [CHR 0x0A, CHR 0x0A]]
     fresh_world)) = Suc 0"
proof -
  have h1: "trim ''hello'' \<noteq> []" by (simp add: trim_def is_space_def)
  have h2: "\<not> isSending (chat fresh_world)" by (simp add: fresh_world_def fresh_chat_def)
  have h3: "\<not> truthy (sessionId (chat fresh_world))"
    by (simp add: fresh_world_def fresh_chat_def truthy_def)
  have h4: "sse_events ascii () parse_sample [frame wire_hi @ take 10 wire_done] = [hi_chunk]"
    by (simp add: sample_defs stream_defs)
  have h5: "sse_events ascii () parse_sample
     ([frame wire_hi @ take 10 wire_done] @ [drop 10 wire_done, [CHR 0x0A, CHR 0x0A]]) =
     [hi_chunk, done_chunk]"
    by (simp add: sample_defs stream_defs)
  have h6: "ctype hi_chunk = ''content''" by (simp add: hi_chunk_def chunk_def)
  have h7: "ctype done_chunk = ''done''" and h8: "session_id done_chunk = Some ''S9''"
    by (simp_all add: done_chunk_def chunk_def)
  have h9: "''S9'' \<noteq> []" by simp
  have p: "''pending-'' @ string_of_nat (clock fresh_world) = ''pending-1712''"
    by (simp add: fresh_world_def string_of_nat.simps)
  have r: "sessionsRefresh (sessionState fresh_world) = 0"
    by (simp add: fresh_world_def initialState_def)
  show ?thesis
    using h1 h2 h3 h4 h5 teardown_survival [OF h1 h2 h3 h4 h5 h6 h7 h8 h9]
    unfolding p r by blast
qed




text \<open>
  Claim C4 as stated fails. With two new-session turns in flight the slot holds the
  descriptor of \<open>pending-2\<close>; resolving the registered \<open>pending-1\<close> still empties the slot.
\<close>

theorem resolve_slot_frame_counterexample:
  "''pending-1'' \<in> activeNewSessionStreams two_turns_state \<and>
   map_option s_id (pendingSession two_turns_state) = Some ''pending-2'' \<and>
   ''pending-2'' \<noteq> ''pending-1'' \<and>
   pendingSession (completeNewSession ''pending-1'' ''S9'' [] two_turns_state) = None \<and>
   pendingSession (completeNewSession ''pending-1'' ''S9'' [] two_turns_state) \<noteq>
     pendingSession two_turns_state"
  by (simp add: two_turns_state_def initialState_def broker_defs Let_def)

text \<open>
  Claim C4, amended: when \<^verbatim>\<open>completeNewSession\<close> runs for a registered pending id, the
  Pending Session Slot is empty afterwards, whatever id its descriptor had.
\<close>

theorem resolve_clears_slot_whatever_its_id:
  "pendingId \<in> activeNewSessionStreams st \<Longrightarrow>
   pendingSession (completeNewSession pendingId realId msgs st) = None"
  by (simp add: broker_defs Let_def)

text \<open>
  The instance of the amended C4 in the state with two turns in flight.
\<close>

theorem resolve_clears_slot_whatever_its_id_witness:
  "''pending-1'' \<in> activeNewSessionStreams two_turns_state \<and>
   pendingSession (completeNewSession ''pending-1'' ''S9'' [] two_turns_state) = None"
proof -
  have h: "''pending-1'' \<in> activeNewSessionStreams two_turns_state"
    by (simp add: two_turns_state_def initialState_def broker_defs)
  show ?thesis
    using h resolve_clears_slot_whatever_its_id [OF h, of "''S9''" "[]"] by simp
qed

text \<open>
  Claim C5: after any run of service calls from the initial state in which the pending id
  was never registered, \<^verbatim>\<open>completeNewSession\<close> and the service callback
  \<^verbatim>\<open>handleNewSessionComplete\<close> for that id return the state as it was: no mapping, no
  publication on the refresh subject, no cached messages, the slot untouched. Neither
  function has a failing branch.
\<close>

theorem resolve_never_registered_noop:
  assumes "RegisterActiveStream pendingId \<notin> set ops"
  shows "completeNewSession pendingId realId msgs (run_broker ops initialState) =
           run_broker ops initialState \<and>
         handleNewSessionComplete pendingId realId (run_broker ops initialState) =
           run_broker ops initialState"
proof -
  have "pendingId \<notin> activeNewSessionStreams (run_broker ops initialState)"
    using assms by (intro run_broker_registry) (simp_all add: initialState_def)
  then show ?thesis
    by (simp add: completeNewSession_unregistered handleNewSessionComplete_unregistered)
qed

text \<open>
  The instance of C5 for \<open>pending-7\<close> after calls that concern other pending ids.
\<close>

theorem resolve_never_registered_noop_witness:
  "RegisterActiveStream ''pending-7'' \<notin>
     set [RegisterActiveStream ''pending-1'', MapPendingToReal ''pending-3'' ''S3''] \<and>
   completeNewSession ''pending-7'' ''S9'' []
     (run_broker [RegisterActiveStream ''pending-1'', MapPendingToReal ''pending-3'' ''S3'']
        initialState) =
   run_broker [RegisterActiveStream ''pending-1'', MapPendingToReal ''pending-3'' ''S3'']
     initialState"
proof -
  have h: "RegisterActiveStream ''pending-7'' \<notin>
     set [RegisterActiveStream ''pending-1'', MapPendingToReal ''pending-3'' ''S3'']"
    by simp
  show ?thesis
    using h resolve_never_registered_noop [OF h, of "''S9''" "[]"] by blast
qed

text \<open>
  Claim C6: for a registered pending id, calling \<^verbatim>\<open>completeNewSession\<close> twice leaves the
  service in the state that one call leaves it in; the refresh subject has been published
  once, the mapping holds the real id and the slot is empty.
\<close>

theorem resolve_idempotent:
  assumes "pendingId \<in> activeNewSessionStreams st"
  shows "completeNewSession pendingId realId msgs (completeNewSession pendingId realId msgs st) =
           completeNewSession pendingId realId msgs st \<and>
         sessionsRefresh
           (completeNewSession pendingId realId msgs (completeNewSession pendingId realId msgs st)) =
           Suc (sessionsRefresh st) \<and>
         getRealSessionId pendingId
           (completeNewSession pendingId realId msgs (completeNewSession pendingId realId msgs st)) =
           Some realId \<and>
         pendingSession
           (completeNewSession pendingId realId msgs (completeNewSession pendingId realId msgs st)) =
           None"
proof -
  let ?st1 = "completeNewSession pendingId realId msgs st"
  have "pendingId \<notin> activeNewSessionStreams ?st1"
    using assms by (rule completeNewSession_registered)
  then have twice: "completeNewSession pendingId realId msgs ?st1 = ?st1"
    by (rule completeNewSession_unregistered)
  show ?thesis
    unfolding twice getRealSessionId_def
    using completeNewSession_registered [OF assms, of realId msgs] by simp
qed

text \<open>
  The instance of C6 for \<open>pending-1\<close> registered in the initial state.
\<close>

theorem resolve_idempotent_witness:
  "''pending-1'' \<in> activeNewSessionStreams (registerActiveStream ''pending-1'' initialState) \<and>
   completeNewSession ''pending-1'' ''S9'' []
     (completeNewSession ''pending-1'' ''S9'' [] (registerActiveStream ''pending-1'' initialState)) =
   completeNewSession ''pending-1'' ''S9'' [] (registerActiveStream ''pending-1'' initialState) \<and>
   sessionsRefresh (completeNewSession ''pending-1'' ''S9'' []
     (completeNewSession ''pending-1'' ''S9'' [] (registerActiveStream ''pending-1'' initialState))) =
   Suc 0"
proof -
  have h: "''pending-1'' \<in> activeNewSessionStreams (registerActiveStream ''pending-1'' initialState)"
    by (simp add: registerActiveStream_def)
  have r0: "sessionsRefresh (registerActiveStream ''pending-1'' initialState) = 0"
    by (simp add: registerActiveStream_def initialState_def)
  show ?thesis
    using h resolve_idempotent [OF h, of "''S9''" "[]"] unfolding r0 by blast
qed

text \<open>
  Claim C7 (chunk-boundary invariance). Let the bytes of a stream decode to a sequence of
  well-formed records, each followed by its separator. However the bytes are cut into
  chunks, the decoder yields the events of the records, one for each record and in the
  order of the records; this is also what it yields when all bytes arrive in one chunk.
\<close>

theorem chunk_boundary_invariance:
  assumes "\<forall>l\<in>set ls. well_formed_record parse l"
    and "fst (decode_stream utf8 d0 bytes) = concat (map frame ls)"
    and "concat chunks = bytes"
  shows "sse_events utf8 d0 parse chunks = map (\<lambda>l. the (parse (drop 6 l))) ls \<and>
         sse_events utf8 d0 parse chunks = sse_events utf8 d0 parse [bytes]"
proof -
  have rt: "\<forall>l\<in>set ls. record_text l"
    using assms(1) by (simp add: well_formed_record_def)
  have "sse_events utf8 d0 parse chunks = List.map_filter (event_of parse) ls"
    using rt assms(2,3) by (intro sse_events_records) simp_all
  moreover have "sse_events utf8 d0 parse chunks = sse_events utf8 d0 parse [bytes]"
    using assms(3) by (intro sse_events_concat) simp
  ultimately show ?thesis
    using map_filter_well_formed [OF assms(1)] by simp
qed

text \<open>
  The instance of C7 for two records cut inside the second record and inside the last
  separator.
\<close>

theorem chunk_boundary_invariance_witness:
  "well_formed_record parse_sample wire_hi \<and> well_formed_record parse_sample wire_done \<and>
   fst (decode_stream ascii () (frame wire_hi @ frame wire_done)) =
     concat (map frame [wire_hi, wire_done]) \<and>
   concat [frame wire_hi @ take 10 wire_done, drop 10 wire_done @ [CHR 0x0A], [CHR 0x0A]] =
     frame wire_hi @ frame wire_done \<and>
   sse_events ascii () parse_sample
     [frame wire_hi @ take 10 wire_done, drop 10 wire_done @ [CHR 0x0A], [CHR 0x0A]] =
     [hi_chunk, done_chunk]"
proof -
  have wf: "\<forall>l\<in>set [wire_hi, wire_done]. well_formed_record parse_sample l"
    by (simp add: well_formed_record_def parse_sample_def wire_hi_def wire_done_def)
  have dec: "fst (decode_stream ascii () (frame wire_hi @ frame wire_done)) =
     concat (map frame [wire_hi, wire_done])"
    by (simp add: ascii_def frame_def wire_hi_def wire_done_def)
  have cat: "concat [frame wire_hi @ take 10 wire_done, drop 10 wire_done @ [CHR 0x0A], [CHR 0x0A]] =
     frame wire_hi @ frame wire_done"
    by (simp add: frame_def)
  have vals: "map (\<lambda>l. the (parse_sample (drop 6 l))) [wire_hi, wire_done] =
     [hi_chunk, done_chunk]"
    by (simp add: parse_sample_def wire_hi_def wire_done_def)
  have each: "well_formed_record parse_sample wire_hi \<and> well_formed_record parse_sample wire_done"
    using wf by simp
  show ?thesis
    using each dec cat chunk_boundary_invariance [OF wf dec cat] unfolding vals by blast
qed

text \<open>
  Claim C8 (malformed-record recovery). When the stream is one record whose body
  \<^verbatim>\<open>JSON.parse\<close> rejects, followed by \<open>N\<close> well-formed records, the decoder logs once
  and yields the events of the \<open>N\<close> well-formed records in order and nothing else.
\<close>

theorem malformed_record_skipped:
  assumes "malformed_record parse m"
    and "\<forall>l\<in>set ls. well_formed_record parse l"
    and "fst (decode_stream utf8 d0 (concat chunks)) = concat (map frame (m # ls))"
  shows "sse_events utf8 d0 parse chunks = map (\<lambda>l. the (parse (drop 6 l))) ls \<and>
         length (sse_events utf8 d0 parse chunks) = length ls \<and>
         sse_logged utf8 d0 parse chunks = 1"
proof -
  have rt: "\<forall>l\<in>set (m # ls). record_text l"
    using assms(1,2) by (simp add: well_formed_record_def malformed_record_def)
  have "filter (\<lambda>l. prefix ''data: '' l \<and> parse (drop 6 l) = None) ls = []"
    using assms(2) by (auto simp: well_formed_record_def filter_empty_conv)
  then have "filter (\<lambda>l. prefix ''data: '' l \<and> parse (drop 6 l) = None) (m # ls) = [m]"
    using assms(1) by (simp add: malformed_record_def)
  then have logged: "sse_logged utf8 d0 parse chunks = 1"
    using sse_logged_records [OF rt assms(3), of parse] by simp
  have "sse_events utf8 d0 parse chunks = List.map_filter (event_of parse) (m # ls)"
    using rt assms(3) by (rule sse_events_records)
  also have "\<dots> = List.map_filter (event_of parse) ls"
    using assms(1) by (simp add: List.map_filter_simps event_of_def malformed_record_def)
  finally show ?thesis
    using map_filter_well_formed [OF assms(2)] logged by simp
qed

text \<open>
  The instance of C8 for a record cut off in its body, followed by two records.
\<close>

theorem malformed_record_skipped_witness:
  "malformed_record parse_sample wire_bad \<and>
   well_formed_record parse_sample wire_hi \<and> well_formed_record parse_sample wire_done \<and>
   fst (decode_stream ascii () (concat [frame wire_bad @ frame wire_hi, frame wire_done])) =
     concat (map frame (wire_bad # [wire_hi, wire_done])) \<and>
   sse_events ascii () parse_sample [frame wire_bad @ frame wire_hi, frame wire_done] =
     [hi_chunk, done_chunk] \<and>
   length (sse_events ascii () parse_sample [frame wire_bad @ frame wire_hi, frame wire_done]) =
     length [wire_hi, wire_done] \<and>
   sse_logged ascii () parse_sample [frame wire_bad @ frame wire_hi, frame wire_done] = 1"
proof -
  have bad: "malformed_record parse_sample wire_bad"
    by (simp add: malformed_record_def parse_sample_def wire_bad_def)
  have wf: "\<forall>l\<in>set [wire_hi, wire_done]. well_formed_record parse_sample l"
    by (simp add: well_formed_record_def parse_sample_def wire_hi_def wire_done_def)
  have dec: "fst (decode_stream ascii () (concat [frame wire_bad @ frame wire_hi, frame wire_done])) =
     concat (map frame (wire_bad # [wire_hi, wire_done]))"
    by (simp add: ascii_def frame_def wire_hi_def wire_done_def wire_bad_def)
  have vals: "map (\<lambda>l. the (parse_sample (drop 6 l))) [wire_hi, wire_done] =
     [hi_chunk, done_chunk]"
    by (simp add: parse_sample_def wire_hi_def wire_done_def)
  have each: "well_formed_record parse_sample wire_hi \<and> well_formed_record parse_sample wire_done"
    using wf by simp
  show ?thesis
    using bad each dec malformed_record_skipped [OF bad wf dec] unfolding vals by blast
qed

text \<open>
  Claim C9 (per-agent content attribution). On a transcript with empty aggregate buffer and
  no per-agent buffer, the events \<^verbatim>\<open>agent_start\<close> of \<open>Researcher\<close>, \<^verbatim>\<open>content\<close> \<open>foo\<close>,
  \<^verbatim>\<open>agent_start\<close> of \<open>Writer\<close>, \<^verbatim>\<open>content\<close> \<open>bar\<close> and \<^verbatim>\<open>done\<close> without a session id
  leave the per-agent buffers \<open>Researcher: foo\<close> and \<open>Writer: bar\<close> and the aggregate
  buffer \<open>foobar\<close>. In general a content event appends its delta to the aggregate buffer
  and, when there is a per-agent buffer, to the last one. The name of the agent is read
  from the field \<^verbatim>\<open>agentName\<close> of the event.
\<close>

theorem per_agent_attribution:
  assumes "streamingMessage (chat w) = Some sm" "m_content sm = []" "m_agentResponses sm = Some []"
    and "ctype e1 = ''agent_start''" "agentName e1 = Some ''Researcher''"
    and "ctype e2 = ''content''" "content e2 = Some ''foo''"
    and "ctype e3 = ''agent_start''" "agentName e3 = Some ''Writer''"
    and "ctype e4 = ''content''" "content e4 = Some ''bar''"
    and "ctype e5 = ''done''" "session_id e5 = None"
    and "streamingMessage (chat v) = Some tm" "ctype e = ''content''"
  shows "map_option m_agentResponses
           (streamingMessage (chat (foldl (\<lambda>w e. handleStreamChunk e isNew w) w [e1, e2, e3, e4, e5]))) =
         Some (Some [\<lparr>ar_agentName = ''Researcher'', ar_content = ''foo''\<rparr>,
                     \<lparr>ar_agentName = ''Writer'', ar_content = ''bar''\<rparr>]) \<and>
         map_option m_content
           (streamingMessage (chat (foldl (\<lambda>w e. handleStreamChunk e isNew w) w [e1, e2, e3, e4, e5]))) =
         Some ''foobar'' \<and>
         map_option m_content (streamingMessage (chat (handleStreamChunk e isNew v))) =
           Some (m_content tm @ or_else (content e) []) \<and>
         map_option m_agentResponses (streamingMessage (chat (handleStreamChunk e isNew v))) =
           Some (case m_agentResponses tm of
                   None \<Rightarrow> None
                 | Some [] \<Rightarrow> Some []
                 | Some (r # rs) \<Rightarrow>
                     Some (butlast (r # rs) @
                           [(last (r # rs))\<lparr>ar_content :=
                              ar_content (last (r # rs)) @ or_else (content e) []\<rparr>]))"
proof -
  have scenario: "map_option m_agentResponses
           (streamingMessage (chat (foldl (\<lambda>w e. handleStreamChunk e isNew w) w [e1, e2, e3, e4, e5]))) =
         Some (Some [\<lparr>ar_agentName = ''Researcher'', ar_content = ''foo''\<rparr>,
                     \<lparr>ar_agentName = ''Writer'', ar_content = ''bar''\<rparr>]) \<and>
         map_option m_content
           (streamingMessage (chat (foldl (\<lambda>w e. handleStreamChunk e isNew w) w [e1, e2, e3, e4, e5]))) =
         Some ''foobar''"
    using assms(1-13)
    by (simp add: handleStreamChunk_def Let_def truthy_def or_else_def split: option.splits)
  from scenario content_delta_appended [OF assms(14,15), of isNew] show ?thesis by simp
qed

text \<open>
  The instance of C9 on the transcript that \<^verbatim>\<open>sendMessage\<close> creates, with the general rule
  at the content event \<open>foo\<close> after the start of \<open>Researcher\<close>.
\<close>

theorem per_agent_attribution_witness:
  "streamingMessage (chat (fst (sendMessage ''hello'' fresh_world))) =
     Some \<lparr>m_id = ''streaming'', m_sessionId = [], m_role = Assistant, m_content = [],
       m_timestamp = 1712, m_metadata = None, m_isStreaming = Some True,
       m_agentResponses = Some [], m_chatterEvents = Some []\<rparr> \<and>
   map_option m_agentResponses (streamingMessage (chat
     (foldl (\<lambda>w e. handleStreamChunk e True w) (fst (sendMessage ''hello'' fresh_world))
        [(chunk ''agent_start'')\<lparr>agentName := Some ''Researcher''\<rparr>,
         (chunk ''content'')\<lparr>content := Some ''foo''\<rparr>,
         (chunk ''agent_start'')\<lparr>agentName := Some ''Writer''\<rparr>,
         (chunk ''content'')\<lparr>content := Some ''bar''\<rparr>,
         chunk ''done'']))) =
     Some (Some [\<lparr>ar_agentName = ''Researcher'', ar_content = ''foo''\<rparr>,
                 \<lparr>ar_agentName = ''Writer'', ar_content = ''bar''\<rparr>]) \<and>
   map_option m_content (streamingMessage (chat
     (foldl (\<lambda>w e. handleStreamChunk e True w) (fst (sendMessage ''hello'' fresh_world))
        [(chunk ''agent_start'')\<lparr>agentName := Some ''Researcher''\<rparr>,
         (chunk ''content'')\<lparr>content := Some ''foo''\<rparr>,
         (chunk ''agent_start'')\<lparr>agentName := Some ''Writer''\<rparr>,
         (chunk ''content'')\<lparr>content := Some ''bar''\<rparr>,
         chunk ''done'']))) = Some ''foobar'' \<and>
   map_option m_agentResponses (streamingMessage (chat
     (handleStreamChunk ((chunk ''content'')\<lparr>content := Some ''foo''\<rparr>) True
        (handleStreamChunk ((chunk ''agent_start'')\<lparr>agentName := Some ''Researcher''\<rparr>) True
           (fst (sendMessage ''hello'' fresh_world)))))) =
     Some (Some [\<lparr>ar_agentName = ''Researcher'', ar_content = ''foo''\<rparr>])"
proof -
  let ?sm = "\<lparr>m_id = ''streaming'', m_sessionId = [], m_role = Assistant, m_content = [],
       m_timestamp = 1712, m_metadata = None, m_isStreaming = Some True,
       m_agentResponses = Some [], m_chatterEvents = Some []\<rparr>"
  let ?tm = "?sm\<lparr>m_agentResponses := Some [\<lparr>ar_agentName = ''Researcher'', ar_content = []\<rparr>]\<rparr>"
  let ?v = "handleStreamChunk ((chunk ''agent_start'')\<lparr>agentName := Some ''Researcher''\<rparr>) True
           (fst (sendMessage ''hello'' fresh_world))"
  have h1: "streamingMessage (chat (fst (sendMessage ''hello'' fresh_world))) = Some ?sm"
    by (simp add: sendMessage_def fresh_world_def fresh_chat_def trim_def is_space_def
        truthy_def or_else_def Let_def)
  have h2: "m_content ?sm = []" and h3: "m_agentResponses ?sm = Some []" by simp_all
  have h4: "streamingMessage (chat ?v) = Some ?tm"
    using h1 by (simp add: handleStreamChunk_def chunk_def or_else_def Let_def)
  have h5: "ctype ((chunk ''content'')\<lparr>content := Some ''foo''\<rparr>) = ''content''"
    by (simp add: chunk_def)
  show ?thesis
    using h1 per_agent_attribution [OF h1 h2 h3 _ _ _ _ _ _ _ _ _ _ h4 h5,
        of "(chunk ''agent_start'')\<lparr>agentName := Some ''Researcher''\<rparr>"
           "(chunk ''content'')\<lparr>content := Some ''foo''\<rparr>"
           "(chunk ''agent_start'')\<lparr>agentName := Some ''Writer''\<rparr>"
           "(chunk ''content'')\<lparr>content := Some ''bar''\<rparr>"
           "chunk ''done''" True]
    by (simp add: chunk_def or_else_def)
qed

text \<open>
  Claim C10 (the redirect consumes the mapping). A view that is alive receives a route
  with a pending id for which the lookup gives a real id. Then \<^verbatim>\<open>loadSession\<close> deletes
  the mapping entry and asks the router for the real id: the lookup of that pending id
  gives nothing afterwards, and a second visit of the same route changes nothing more.
\<close>

theorem redirect_consumes_mapping:
  assumes "\<not> destroyed (chat w)" "prefix ''pending-'' pendingId"
    and "getRealSessionId pendingId (sessionState w) = Some realId" "realId \<noteq> []"
  shows "getRealSessionId pendingId (sessionState (routeParams (Some pendingId) w)) = None \<and>
         effects (routeParams (Some pendingId) w) = effects w @ [Navigate [''/chat'', realId]] \<and>
         sessionState (routeParams (Some pendingId) w) =
           clearPendingMapping pendingId (sessionState w) \<and>
         routeParams (Some pendingId) (routeParams (Some pendingId) w) =
           routeParams (Some pendingId) w"
proof -
  from assms(2) have ne: "pendingId \<noteq> []" by auto
  let ?w1 = "routeParams (Some pendingId) w"
  have sid: "sessionId (chat ?w1) = Some pendingId" and nd: "\<not> destroyed (chat ?w1)"
    and st: "sessionState ?w1 = clearPendingMapping pendingId (sessionState w)"
    and ef: "effects ?w1 = effects w @ [Navigate [''/chat'', realId]]"
    using assms ne
    by (simp_all add: routeParams_def loadSession_def Let_def truthy_def or_else_def)
  have gone: "getRealSessionId pendingId (sessionState ?w1) = None"
    unfolding st by (simp add: getRealSessionId_def clearPendingMapping_def)
  have again: "routeParams (Some pendingId) ?w1 = ?w1"
    using sid nd gone assms(2) ne
    by (simp add: routeParams_def loadSession_def Let_def truthy_def or_else_def)
  from gone ef st again show ?thesis by simp
qed

text \<open>
  The instance of C10 for \<open>pending-1712\<close> resolved to \<open>S9\<close>.
\<close>

theorem redirect_consumes_mapping_witness:
  "\<not> destroyed (chat resolved_world) \<and> prefix ''pending-'' ''pending-1712'' \<and>
   getRealSessionId ''pending-1712'' (sessionState resolved_world) = Some ''S9'' \<and>
   getRealSessionId ''pending-1712''
     (sessionState (routeParams (Some ''pending-1712'') resolved_world)) = None \<and>
   effects (routeParams (Some ''pending-1712'') resolved_world) = [] @ [Navigate [''/chat'', ''S9'']]"
proof -
  have h1: "\<not> destroyed (chat resolved_world)"
    by (simp add: resolved_world_def fresh_world_def fresh_chat_def)
  have h2: "prefix ''pending-'' ''pending-1712''" by simp
  have h3: "getRealSessionId ''pending-1712'' (sessionState resolved_world) = Some ''S9''"
    by (simp add: resolved_world_def getRealSessionId_def initialState_def broker_defs Let_def)
  have h4: "''S9'' \<noteq> []" by simp
  have e: "effects resolved_world = []" by (simp add: resolved_world_def fresh_world_def)
  show ?thesis
    using h1 h2 h3 redirect_consumes_mapping [OF h1 h2 h3 h4] unfolding e by blast
qed

end
